theory Spec2Isabelle
  imports Main
begin

section \<open>Strings as the transformer uses them\<close>

text \<open>
  Go strings are byte sequences; \<open>string\<close> (a \<open>char list\<close>) is the same thing.
  The functions of this section stand for the calls into Go's \<open>strings\<close>,
  \<open>unicode\<close>, \<open>regexp\<close> and \<open>fmt\<close> packages that the parser and the transformer
  make. The case tests and mappings (\<open>IsUpper\<close>, \<open>ToLower\<close>, \<open>ToUpper\<close>) and
  \<open>TrimSpace\<close> are modelled on ASCII: they treat a byte beyond ASCII as a caseless
  byte that is no blank and is copied unchanged, so the snake-case and enum value names
  and the comment filter are those of the code for ASCII identifiers and comments.
  \<open>unicode.IsLower\<close> is the exception: the code only ever applies it to a single byte
  converted to a rune, so it is modelled on Latin-1, as Go classifies those runes.
  Splitting, trimming of a given byte, the regular expression and the scan of a number
  work on bytes and are modelled for every string.
\<close>

definition asciiUpper :: string where
  "asciiUpper = ''ABCDEFGHIJKLMNOPQRSTUVWXYZ''"

definition asciiLower :: string where
  "asciiLower = ''abcdefghijklmnopqrstuvwxyz''"

definition IsUpper :: "char \<Rightarrow> bool" where
  "IsUpper c = (c \<in> set asciiUpper)"

definition IsLower :: "char \<Rightarrow> bool" where
  "IsLower c =
     (let n = (of_char c :: nat)
      in (97 \<le> n \<and> n \<le> 122) \<or> n = 181 \<or> (223 \<le> n \<and> n \<le> 246) \<or> (248 \<le> n \<and> n \<le> 255))"

definition ToLower :: "char \<Rightarrow> char" where
  "ToLower c = (case map_of (zip asciiUpper asciiLower) c of Some l \<Rightarrow> l | None \<Rightarrow> c)"

definition ToUpper :: "string \<Rightarrow> string" where
  "ToUpper s = map (\<lambda>c. case map_of (zip asciiLower asciiUpper) c of Some u \<Rightarrow> u | None \<Rightarrow> c) s"

definition HasPrefix :: "string \<Rightarrow> string \<Rightarrow> bool" where
  "HasPrefix s p = (take (length p) s = p)"

definition TrimPrefix :: "string \<Rightarrow> string \<Rightarrow> string" where
  "TrimPrefix s p = (if HasPrefix s p then drop (length p) s else s)"

definition isSpace :: "char \<Rightarrow> bool" where
  "isSpace c = (c \<in> set [CHR 0x09, CHR 0x0A, CHR 0x0B, CHR 0x0C, CHR 0x0D, CHR 0x20])"

definition TrimSpace :: "string \<Rightarrow> string" where
  "TrimSpace s = rev (dropWhile isSpace (rev (dropWhile isSpace s)))"

text \<open>\<open>strings.Trim(s, cutset)\<close> for a cutset of one byte.\<close>

definition Trim :: "string \<Rightarrow> char \<Rightarrow> string" where
  "Trim s c = rev (dropWhile (\<lambda>x. x = c) (rev (dropWhile (\<lambda>x. x = c) s)))"

text \<open>\<open>strings.Split(s, sep)\<close> for a separator of one byte: never empty, one more
  part than there are separators.\<close>

fun Split :: "string \<Rightarrow> char \<Rightarrow> string list" where
  "Split [] c = [[]]"
| "Split (x # xs) c =
     (let ps = Split xs c in if x = c then [] # ps else (x # hd ps) # tl ps)"

fun Join :: "string list \<Rightarrow> string \<Rightarrow> string" where
  "Join [] sep = []"
| "Join [p] sep = p"
| "Join (p # q # ps) sep = p @ sep @ Join (q # ps) sep"

definition ReplaceAll :: "string \<Rightarrow> char \<Rightarrow> char \<Rightarrow> string" where
  "ReplaceAll s old new = map (\<lambda>c. if c = old then new else c) s"

text \<open>\<open>fmt.Sprintf("%d", n)\<close> for the positions \<open>i + 1\<close> it is called on.\<close>

definition digitChar :: "nat \<Rightarrow> char" where
  "digitChar d = ''0123456789'' ! (d mod 10)"

function itoa :: "nat \<Rightarrow> string" where
  "itoa n = (if n < 10 then [digitChar n] else itoa (n div 10) @ [digitChar n])"
  by pat_completeness auto
termination
  by (relation "measure id") auto

text \<open>
  \<open>fmt.Sscanf(s, "%d", &n)\<close> as \<open>parseProtobufTag\<close> uses it: the result is the value
  left in \<open>n\<close>, which starts at 0 and stays 0 when the scan fails (the error is not
  looked at). The scan skips the runes that \<open>fmt\<close> counts as space, except the
  newline, which is an error; it takes an optional sign and then at least one decimal
  digit, and fails when the number does not fit the 64 bits of an \<open>int\<close>; what follows
  the digits is not read. The spaces beyond ASCII are matched by their UTF-8 encodings
  (U+0085, U+00A0, U+1680, U+2000 to U+200A, U+2028, U+2029, U+202F, U+205F, U+3000).
\<close>

definition isDigit :: "char \<Rightarrow> bool" where
  "isDigit c = (c \<in> set ''0123456789'')"

definition digitVal :: "char \<Rightarrow> int" where
  "digitVal c = (case map_of (zip ''0123456789'' [0, 1, 2, 3, 4, 5, 6, 7, 8, 9]) c of
                   Some d \<Rightarrow> d | None \<Rightarrow> 0)"

definition unicodeSpaces :: "string list" where
  "unicodeSpaces =
     [[CHR 0xC2, CHR 0x85], [CHR 0xC2, CHR 0xA0], [CHR 0xE1, CHR 0x9A, CHR 0x80]] @
     map (\<lambda>c. [CHR 0xE2, CHR 0x80, c])
       [CHR 0x80, CHR 0x81, CHR 0x82, CHR 0x83, CHR 0x84, CHR 0x85, CHR 0x86, CHR 0x87,
        CHR 0x88, CHR 0x89, CHR 0x8A, CHR 0xA8, CHR 0xA9, CHR 0xAF] @
     [[CHR 0xE2, CHR 0x81, CHR 0x9F], [CHR 0xE3, CHR 0x80, CHR 0x80]]"

text \<open>The width in bytes of the space that \<open>s\<close> starts with, 0 if it starts with
  none.\<close>

definition spaceWidth :: "string \<Rightarrow> nat" where
  "spaceWidth s =
     (if s \<noteq> [] \<and> hd s \<in> set [CHR 0x09, CHR 0x0B, CHR 0x0C, CHR 0x0D, CHR 0x20] then 1
      else case find (\<lambda>u. HasPrefix s u) unicodeSpaces of
             Some u \<Rightarrow> length u
           | None \<Rightarrow> 0)"

function SkipSpace :: "string \<Rightarrow> string" where
  "SkipSpace s = (if s = [] \<or> spaceWidth s = 0 then s else SkipSpace (drop (spaceWidth s) s))"
  by pat_completeness auto
termination
  by (relation "measure length") auto

definition Sscanf_d :: "string \<Rightarrow> int" where
  "Sscanf_d s =
     (let s1 = SkipSpace s;
          neg = (s1 \<noteq> [] \<and> hd s1 = CHR ''-'');
          s2 = (if s1 \<noteq> [] \<and> (hd s1 = CHR ''+'' \<or> hd s1 = CHR ''-'') then tl s1 else s1);
          ds = takeWhile isDigit s2;
          v = foldl (\<lambda>acc c. 10 * acc + digitVal c) 0 ds;
          n = (if neg then - v else v)
      in if ds = [] then 0
         else if n < - (2 ^ 63) \<or> 2 ^ 63 \<le> n then 0
         else n)"

definition dquote :: char where
  "dquote = CHR 0x22"

definition backtick :: char where
  "backtick = CHR 0x60"

text \<open>
  \<open>regexp.MustCompile(`protobuf:"([^"]+)"`).FindStringSubmatch(tag)\<close>: the first
  capture group of the leftmost match, or \<open>None\<close> when nothing matches. At a start
  position the literal \<open>protobuf:"\<close> must be followed by a non-empty run of bytes
  other than \<open>"\<close> and then by a \<open>"\<close>; since the run excludes the quote, the greedy
  run is the only candidate at that position.
\<close>

definition protobufKey :: string where
  "protobufKey = ''protobuf:'' @ [dquote]"

fun FindStringSubmatch :: "string \<Rightarrow> string option" where
  "FindStringSubmatch [] = None"
| "FindStringSubmatch (c # cs) =
     (let s = c # cs;
          rest = drop (length protobufKey) s;
          body = takeWhile (\<lambda>x. x \<noteq> dquote) rest;
          after = dropWhile (\<lambda>x. x \<noteq> dquote) rest
      in if HasPrefix s protobufKey \<and> body \<noteq> [] \<and> after \<noteq> [] then Some body
         else FindStringSubmatch cs)"

section \<open>Package ct: the composition primitives\<close>

record 'a Monoid =
  Empty :: 'a
  Append :: "'a \<Rightarrow> 'a \<Rightarrow> 'a"

definition Filter :: "'a list \<Rightarrow> ('a \<Rightarrow> bool) \<Rightarrow> 'a list" where
  "Filter xs pred = filter pred xs"

definition Concat :: "'a Monoid \<Rightarrow> 'a list \<Rightarrow> 'a" where
  "Concat m xs = foldl (\<lambda>result x. Append m result x) (Empty m) xs"

definition FoldMap :: "'a list \<Rightarrow> 'b Monoid \<Rightarrow> ('a \<Rightarrow> 'b) \<Rightarrow> 'b" where
  "FoldMap xs m f = foldl (\<lambda>result x. Append m result (f x)) (Empty m) xs"

text \<open>\<open>Unique\<close> keeps the first occurrence of every element; \<open>seen\<close> is the set of
  keys of the map the loop fills.\<close>

fun Unique_loop :: "'a set \<Rightarrow> 'a list \<Rightarrow> 'a list" where
  "Unique_loop seen [] = []"
| "Unique_loop seen (x # xs) =
     (if x \<in> seen then Unique_loop seen xs else x # Unique_loop (insert x seen) xs)"

definition Unique :: "'a list \<Rightarrow> 'a list" where
  "Unique xs = Unique_loop {} xs"

text \<open>\<open>Coalesce\<close> at the string type, whose zero value is the empty string.\<close>

fun Coalesce :: "string list \<Rightarrow> string" where
  "Coalesce [] = []"
| "Coalesce (v # vs) = (if v \<noteq> [] then v else Coalesce vs)"

section \<open>The Proto IR\<close>

text \<open>
  Go slices are lists and Go maps are partial functions; a nil slice or map and an empty
  one are the same value here (the transformer never tells them apart). Go's \<open>int\<close>
  and \<open>int64\<close> are \<open>int\<close>: the only arithmetic is counting fields and constants.
\<close>

record ProtoField =
  fld_Name :: string
  fld_Type :: string
  fld_Number :: int
  fld_Repeated :: bool
  fld_Optional :: bool
  fld_MapKey :: string
  fld_MapValue :: string
  fld_Comments :: "string list"

record ProtoEnumValue =
  ev_Name :: string
  ev_Number :: int
  ev_Comments :: "string list"

record ProtoEnum =
  enum_Name :: string
  enum_Values :: "ProtoEnumValue list"
  enum_Comments :: "string list"

datatype ProtoMessage =
  ProtoMessage (msg_Name: string) (msg_Fields: "ProtoField list")
    (msg_Nested: "ProtoMessage list") (msg_Enums: "ProtoEnum list")
    (msg_Comments: "string list")

record ProtoRPC =
  rpc_Name :: string
  rpc_InputType :: string
  rpc_OutputType :: string
  rpc_ClientStreaming :: bool
  rpc_ServerStreaming :: bool
  rpc_Comments :: "string list"

record ProtoService =
  svc_Name :: string
  svc_Methods :: "ProtoRPC list"
  svc_Comments :: "string list"

record Proto =
  Syntax :: string
  Package :: string
  Options :: "string \<rightharpoonup> string"
  Imports :: "string list"
  Enums :: "ProtoEnum list"
  Messages :: "ProtoMessage list"
  Services :: "ProtoService list"

text \<open>
  \<open>ProtoMonoid\<close>. The two \<open>range\<close> loops copy the options of \<open>a\<close> and then
  those of \<open>b\<close> into a fresh map, so a key of \<open>b\<close> overwrites the same key of
  \<open>a\<close>: that is \<open>Options a ++ Options b\<close>. (The order in which a loop visits
  a map is left open by Go; section "Runs" models it and shows it does not matter.)
\<close>

definition ProtoMonoid :: "Proto Monoid" where
  "ProtoMonoid =
     \<lparr> Empty = \<lparr> Syntax = ''proto3'', Package = [], Options = Map.empty, Imports = [],
                  Enums = [], Messages = [], Services = [] \<rparr>,
       Append = (\<lambda>a b.
         \<lparr> Syntax = Coalesce [Syntax a, Syntax b],
           Package = Coalesce [Package a, Package b],
           Options = Map.empty ++ Options a ++ Options b,
           Imports = Unique (Imports a @ Imports b),
           Enums = Enums a @ Enums b,
           Messages = Messages a @ Messages b,
           Services = Services a @ Services b \<rparr>) \<rparr>"

section \<open>The type graph (package parser)\<close>

datatype GoType =
    BasicType string
  | PointerType GoType
  | SliceType GoType
  | ArrayType GoType int
  | MapType GoType GoType
  | NamedType string string
  | InterfaceType "GoMethod list"
  | StructType "GoField list"
  | ChanType GoType int
  | FuncType "GoParam list" "GoParam list"
and GoMethod =
  GoMethod (gm_Name: string) (gm_Params: "GoParam list") (gm_Results: "GoParam list")
and GoField =
  GoField (gf_Name: string) (gf_Type: GoType) (gf_Tag: string) (gf_Embedded: bool)
    (gf_Comments: "string list") (gf_Exported: bool)
and GoParam =
  GoParam (gp_Name: string) (gp_Type: GoType)

text \<open>\<open>NamedType\<close> holds the package first and the name second, as the Go struct does.\<close>

definition NamedType_String :: "string \<Rightarrow> string \<Rightarrow> string" where
  "NamedType_String pkg name = (if pkg \<noteq> [] then pkg @ ''.'' @ name else name)"

record GoStruct =
  gs_Name :: string
  gs_Fields :: "GoField list"
  gs_Comments :: "string list"
  gs_Tags :: "string \<rightharpoonup> string"
  gs_TypeParams :: "string list"

record GoInterface =
  gi_Name :: string
  gi_Methods :: "GoMethod list"
  gi_Comments :: "string list"
  gi_Tags :: "string \<rightharpoonup> string"

record GoAlias =
  ga_Name :: string
  ga_Underlying :: GoType
  ga_Comments :: "string list"
  ga_Tags :: "string \<rightharpoonup> string"

record GoConstValue =
  cv_Name :: string
  cv_Value :: int
  cv_Comments :: "string list"

record GoConstGroup =
  cg_TypeName :: string
  cg_Values :: "GoConstValue list"

record GoPackage =
  pkg_Path :: string
  pkg_Name :: string
  Structs :: "GoStruct list"
  Interfaces :: "GoInterface list"
  Aliases :: "GoAlias list"
  Consts :: "GoConstGroup list"

text \<open>Reading a Go \<open>map[string]string\<close>: a missing key reads as the empty string.\<close>

definition tag_of :: "(string \<rightharpoonup> string) \<Rightarrow> string \<Rightarrow> string" where
  "tag_of tags k = (case tags k of Some v \<Rightarrow> v | None \<Rightarrow> [])"

subsection \<open>Constant groups: \<open>extractConsts\<close>\<close>

text \<open>
  A constant declaration is a list of specs. Of a value spec the loop reads the type
  expression (absent, an identifier, or anything else), the names and the doc comment
  lines.

  \<open>ast.IsExported\<close> belongs to Go's library: it decodes the first rune of the name
  and asks \<open>unicode.IsUpper\<close>. The loop is modelled for any such test, the parameter
  \<open>exported\<close>, so what is proved of it holds for the library's test on every name.
  \<open>IsExported\<close> below is that test on names that start with an ASCII byte; the
  sample inputs are run with it.
\<close>

datatype Expr = NoExpr | Ident string | OtherExpr

datatype Spec = ValueSpec Expr "string list" "string list" | OtherSpec

definition IsExported :: "string \<Rightarrow> bool" where
  "IsExported name = (name \<noteq> [] \<and> IsUpper (hd name))"

definition TrimSuffix :: "string \<Rightarrow> string \<Rightarrow> string" where
  "TrimSuffix s p =
     (if length p \<le> length s \<and> drop (length s - length p) s = p
      then take (length s - length p) s else s)"

definition extractComments :: "string list \<Rightarrow> string list" where
  "extractComments cg =
     map (\<lambda>c. TrimSpace (TrimSuffix (TrimPrefix (TrimPrefix c ''//'') ''/*'') ''*/'')) cg"

fun extractConsts_names ::
  "(string \<Rightarrow> bool) \<Rightarrow> string list \<Rightarrow> string list \<Rightarrow> int \<Rightarrow> GoConstValue list \<Rightarrow>
   int \<times> GoConstValue list" where
  "extractConsts_names exported [] doc iotaValue vals = (iotaValue, vals)"
| "extractConsts_names exported (name # names) doc iotaValue vals =
     (if \<not> exported name then extractConsts_names exported names doc (iotaValue + 1) vals
      else extractConsts_names exported names doc (iotaValue + 1)
             (vals @ [\<lparr> cv_Name = name, cv_Value = iotaValue, cv_Comments = doc \<rparr>]))"

fun extractConsts_loop ::
  "(string \<Rightarrow> bool) \<Rightarrow> Spec list \<Rightarrow> string \<Rightarrow> int \<Rightarrow> (string \<rightharpoonup> GoConstGroup) \<Rightarrow>
   (string \<rightharpoonup> GoConstGroup)" where
  "extractConsts_loop exported [] currentType iotaValue groups = groups"
| "extractConsts_loop exported (OtherSpec # specs) currentType iotaValue groups =
     extractConsts_loop exported specs currentType iotaValue groups"
| "extractConsts_loop exported (ValueSpec ty names doc # specs) currentType iotaValue groups =
     (let (currentType', iotaValue') =
            (case ty of
               Ident n \<Rightarrow> if currentType \<noteq> n then (n, 0) else (currentType, iotaValue)
             | _ \<Rightarrow> (currentType, iotaValue))
      in if currentType' = [] then extractConsts_loop exported specs currentType' iotaValue' groups
         else
           let group = (case groups currentType' of
                          Some g \<Rightarrow> g
                        | None \<Rightarrow> \<lparr> cg_TypeName = currentType', cg_Values = [] \<rparr>);
               (iotaValue'', vals) =
                 extractConsts_names exported names (extractComments doc) iotaValue'
                   (cg_Values group)
           in extractConsts_loop exported specs currentType' iotaValue''
                (groups(currentType' \<mapsto> group\<lparr> cg_Values := vals \<rparr>)))"

definition extractConsts ::
  "(string \<Rightarrow> bool) \<Rightarrow> Spec list \<Rightarrow> (string \<rightharpoonup> GoConstGroup) \<Rightarrow> (string \<rightharpoonup> GoConstGroup)" where
  "extractConsts exported specs groups = extractConsts_loop exported specs [] 0 groups"

text \<open>\<open>extractPackage\<close> runs \<open>extractConsts\<close> over every constant declaration of
  the package, on one shared map of groups.\<close>

definition extractPackage_consts ::
  "(string \<Rightarrow> bool) \<Rightarrow> Spec list list \<Rightarrow> (string \<rightharpoonup> GoConstGroup)" where
  "extractPackage_consts exported decls =
     foldl (\<lambda>groups d. extractConsts exported d groups) Map.empty decls"

section \<open>The transformer\<close>

record TypeMapping =
  tm_Proto :: string
  tm_Import :: string

definition defaultTypeMappings :: "string \<rightharpoonup> TypeMapping" where
  "defaultTypeMappings = map_of
     [(''string'', \<lparr> tm_Proto = ''string'', tm_Import = [] \<rparr>),
      (''bool'', \<lparr> tm_Proto = ''bool'', tm_Import = [] \<rparr>),
      (''int'', \<lparr> tm_Proto = ''int64'', tm_Import = [] \<rparr>),
      (''int8'', \<lparr> tm_Proto = ''int32'', tm_Import = [] \<rparr>),
      (''int16'', \<lparr> tm_Proto = ''int32'', tm_Import = [] \<rparr>),
      (''int32'', \<lparr> tm_Proto = ''int32'', tm_Import = [] \<rparr>),
      (''int64'', \<lparr> tm_Proto = ''int64'', tm_Import = [] \<rparr>),
      (''uint'', \<lparr> tm_Proto = ''uint64'', tm_Import = [] \<rparr>),
      (''uint8'', \<lparr> tm_Proto = ''uint32'', tm_Import = [] \<rparr>),
      (''uint16'', \<lparr> tm_Proto = ''uint32'', tm_Import = [] \<rparr>),
      (''uint32'', \<lparr> tm_Proto = ''uint32'', tm_Import = [] \<rparr>),
      (''uint64'', \<lparr> tm_Proto = ''uint64'', tm_Import = [] \<rparr>),
      (''float32'', \<lparr> tm_Proto = ''float'', tm_Import = [] \<rparr>),
      (''float64'', \<lparr> tm_Proto = ''double'', tm_Import = [] \<rparr>),
      (''byte'', \<lparr> tm_Proto = ''uint32'', tm_Import = [] \<rparr>),
      (''rune'', \<lparr> tm_Proto = ''int32'', tm_Import = [] \<rparr>),
      (''[]byte'', \<lparr> tm_Proto = ''bytes'', tm_Import = [] \<rparr>),
      (''time.Time'', \<lparr> tm_Proto = ''google.protobuf.Timestamp'',
                        tm_Import = ''google/protobuf/timestamp.proto'' \<rparr>),
      (''time.Duration'', \<lparr> tm_Proto = ''google.protobuf.Duration'',
                            tm_Import = ''google/protobuf/duration.proto'' \<rparr>),
      (''error'', \<lparr> tm_Proto = ''string'', tm_Import = [] \<rparr>),
      (''any'', \<lparr> tm_Proto = ''google.protobuf.Any'',
                  tm_Import = ''google/protobuf/any.proto'' \<rparr>)]"

record TransformOptions =
  opt_PackageName :: string
  opt_GoPackage :: string
  TypeMappings :: "string \<rightharpoonup> TypeMapping"
  IncludePrivate :: bool
  ServiceSuffix :: string

definition DefaultOptions :: TransformOptions where
  "DefaultOptions =
     \<lparr> opt_PackageName = [], opt_GoPackage = [], TypeMappings = defaultTypeMappings,
       IncludePrivate = False, ServiceSuffix = ''Service'' \<rparr>"

text \<open>
  A \<open>Transformer\<close> holds the options and a \<open>knownTypes\<close> map that no method reads
  or writes, so the methods below take the options alone. The lookups \<open>enumLookup\<close>
  and \<open>typeParamsLookup\<close> are \<open>map[string]bool\<close> holding only \<open>true\<close>: sets of
  names, the nil map being the empty set.
\<close>

definition toProtoPackage :: "string \<Rightarrow> string" where
  "toProtoPackage goPath =
     (let parts = Split goPath (CHR ''/'');
          hosts = [''github.com'', ''gitlab.com'', ''bitbucket.org''];
          parts' = (case dropWhile (\<lambda>p. p \<notin> set hosts) parts of
                      [] \<Rightarrow> parts
                    | _ # rest \<Rightarrow> rest)
      in ReplaceAll (Join parts' ''.'') (CHR ''-'') (CHR ''_''))"

text \<open>\<open>toSnakeCase\<close>: \<open>first\<close> says that the index is 0, \<open>prevLower\<close> is the
  loop's flag; the byte after an upper-case letter is \<open>s[i+1]\<close>.\<close>

fun toSnakeCase_loop :: "bool \<Rightarrow> bool \<Rightarrow> string \<Rightarrow> string" where
  "toSnakeCase_loop first prevLower [] = []"
| "toSnakeCase_loop first prevLower (r # rest) =
     (if IsUpper r then
        (let nextIsLower = (case rest of [] \<Rightarrow> False | c # _ \<Rightarrow> IsLower c);
             sep = (if \<not> first \<and> (prevLower \<or> (nextIsLower \<and> \<not> prevLower \<and> \<not> first))
                    then ''_'' else [])
         in sep @ ToLower r # toSnakeCase_loop False False rest)
      else r # toSnakeCase_loop False True rest)"

definition toSnakeCase :: "string \<Rightarrow> string" where
  "toSnakeCase s = toSnakeCase_loop True False s"

definition toEnumValueName :: "string \<Rightarrow> string \<Rightarrow> string" where
  "toEnumValueName typeName valueName =
     (let upperTypeName = ToUpper (toSnakeCase typeName);
          upperValueName = ToUpper (toSnakeCase valueName)
      in if HasPrefix upperValueName upperTypeName then upperValueName
         else upperTypeName @ ''_'' @ upperValueName)"

text \<open>\<open>parseProtobufTag\<close>. \<open>emptyField\<close> is the zero value \<open>ProtoField{}\<close>;
  \<open>tagOption\<close> is the body of the loop over the options of the tag and \<open>wireType\<close>
  the switch on its first part.\<close>

definition emptyField :: ProtoField where
  "emptyField =
     \<lparr> fld_Name = [], fld_Type = [], fld_Number = 0, fld_Repeated = False,
       fld_Optional = False, fld_MapKey = [], fld_MapValue = [], fld_Comments = [] \<rparr>"

definition tagOption :: "ProtoField \<Rightarrow> string \<Rightarrow> ProtoField" where
  "tagOption field part =
     (let f1 = (if HasPrefix part ''name='' then field\<lparr> fld_Name := TrimPrefix part ''name='' \<rparr>
                else field);
          f2 = (if part = ''rep'' then f1\<lparr> fld_Repeated := True \<rparr> else f1)
      in if part = ''opt'' then f2\<lparr> fld_Optional := True \<rparr> else f2)"

definition wireType :: "string \<Rightarrow> ProtoField \<Rightarrow> ProtoField" where
  "wireType w field =
     (if w = ''bytes'' then field\<lparr> fld_Type := ''bytes'' \<rparr>
      else if w = ''varint'' then field\<lparr> fld_Type := ''int64'' \<rparr>
      else if w = ''fixed64'' then field\<lparr> fld_Type := ''fixed64'' \<rparr>
      else if w = ''fixed32'' then field\<lparr> fld_Type := ''fixed32'' \<rparr>
      else field)"

definition parseProtobufTag :: "string \<Rightarrow> ProtoField option" where
  "parseProtobufTag tag =
     (if tag = [] then None
      else case FindStringSubmatch (Trim tag backtick) of
             None \<Rightarrow> None
           | Some m \<Rightarrow>
               (let parts = Split m (CHR '','')
                in if length parts < 3 then None
                   else Some (wireType (parts ! 0)
                          (foldl tagOption (emptyField\<lparr> fld_Number := Sscanf_d (parts ! 1) \<rparr>)
                             (drop 2 parts)))))"

definition filterNonTagComments :: "string list \<Rightarrow> string list" where
  "filterNonTagComments comments = Filter comments (\<lambda>c. \<not> HasPrefix (TrimSpace c) ''+'')"

definition isBasicProtoType :: "string \<Rightarrow> bool" where
  "isBasicProtoType t =
     (t \<in> set [''string'', ''bool'', ''bytes'', ''int32'', ''int64'', ''uint32'', ''uint64'',
               ''sint32'', ''sint64'', ''fixed32'', ''fixed64'', ''sfixed32'', ''sfixed64'',
               ''float'', ''double''])"

text \<open>\<open>transformType\<close> returns \<open>(protoType, imports, repeated, isMap, mapKey, mapValue)\<close>.\<close>

type_synonym resolved = "string \<times> string list \<times> bool \<times> bool \<times> string \<times> string"

definition anyType :: resolved where
  "anyType = (''google.protobuf.Any'', [''google/protobuf/any.proto''], False, False, [], [])"

definition mapped :: "TypeMapping \<Rightarrow> resolved" where
  "mapped mapping =
     (tm_Proto mapping, (if tm_Import mapping \<noteq> [] then [tm_Import mapping] else []),
      False, False, [], [])"

fun transformType ::
  "(string \<rightharpoonup> TypeMapping) \<Rightarrow> GoType \<Rightarrow> string set \<Rightarrow> string set \<Rightarrow> resolved" where
  "transformType tm (BasicType name) enumLookup typeParamsLookup =
     (case tm name of
        Some mapping \<Rightarrow> mapped mapping
      | None \<Rightarrow> (name, [], False, False, [], []))"
| "transformType tm (PointerType elem) enumLookup typeParamsLookup =
     transformType tm elem enumLookup typeParamsLookup"
| "transformType tm (SliceType elem) enumLookup typeParamsLookup =
     (if elem = BasicType ''byte'' then (''bytes'', [], False, False, [], [])
      else case transformType tm elem enumLookup typeParamsLookup of
             (innerType, innerImports, _) \<Rightarrow> (innerType, innerImports, True, False, [], []))"
| "transformType tm (ArrayType elem len) enumLookup typeParamsLookup =
     (case transformType tm elem enumLookup typeParamsLookup of
        (innerType, innerImports, _) \<Rightarrow> (innerType, innerImports, True, False, [], []))"
| "transformType tm (MapType key val) enumLookup typeParamsLookup =
     (case transformType tm key enumLookup typeParamsLookup of
        (keyType, keyImports, _) \<Rightarrow>
          (case transformType tm val enumLookup typeParamsLookup of
             (valueType, valueImports, _) \<Rightarrow>
               (''map<'' @ keyType @ '', '' @ valueType @ ''>'', keyImports @ valueImports,
                False, True, keyType, valueType)))"
| "transformType tm (NamedType pkg name) enumLookup typeParamsLookup =
     (if name \<in> enumLookup then (name, [], False, False, [], [])
      else case tm (NamedType_String pkg name) of
             Some mapping \<Rightarrow> mapped mapping
           | None \<Rightarrow>
               if pkg = ''time'' \<and> name = ''Time''
               then (''google.protobuf.Timestamp'', [''google/protobuf/timestamp.proto''],
                     False, False, [], [])
               else if pkg = ''time'' \<and> name = ''Duration''
               then (''google.protobuf.Duration'', [''google/protobuf/duration.proto''],
                     False, False, [], [])
               else if name \<in> typeParamsLookup then anyType
               else (name, [], False, False, [], []))"
| "transformType tm (InterfaceType ms) enumLookup typeParamsLookup = anyType"
| "transformType tm (StructType fs) enumLookup typeParamsLookup = anyType"
| "transformType tm (ChanType elem dir) enumLookup typeParamsLookup = anyType"
| "transformType tm (FuncType ps rs) enumLookup typeParamsLookup = anyType"

definition isPointerType :: "GoType \<Rightarrow> bool" where
  "isPointerType t = (case t of PointerType _ \<Rightarrow> True | _ \<Rightarrow> False)"

definition transformField ::
  "TransformOptions \<Rightarrow> GoField \<Rightarrow> int \<Rightarrow> string set \<Rightarrow> string set \<Rightarrow> ProtoField \<times> string list" where
  "transformField opts f num enumLookup typeParamsLookup =
     (case parseProtobufTag (gf_Tag f) of
        Some tag \<Rightarrow> (tag, [])
      | None \<Rightarrow>
          (case transformType (TypeMappings opts) (gf_Type f) enumLookup typeParamsLookup of
             (protoType, imports, repeated, isMap, mapKey, mapValue) \<Rightarrow>
               (\<lparr> fld_Name = toSnakeCase (gf_Name f), fld_Type = protoType, fld_Number = num,
                   fld_Repeated = repeated,
                   fld_Optional = (isPointerType (gf_Type f) \<and> isBasicProtoType protoType),
                   fld_MapKey = mapKey, fld_MapValue = mapValue,
                   fld_Comments = filterNonTagComments (gf_Comments f) \<rparr>,
                imports)))"

text \<open>The field loop of \<open>transformStruct\<close>: the message's fields so far, the imports
  so far, and \<open>fieldNum\<close>.\<close>

fun transformStruct_loop ::
  "TransformOptions \<Rightarrow> string set \<Rightarrow> string set \<Rightarrow> GoField list \<Rightarrow>
   ProtoField list \<Rightarrow> string list \<Rightarrow> int \<Rightarrow> ProtoField list \<times> string list" where
  "transformStruct_loop opts el tp [] flds imports fieldNum = (flds, imports)"
| "transformStruct_loop opts el tp (f # fs) flds imports fieldNum =
     (if \<not> gf_Exported f \<and> \<not> IncludePrivate opts
      then transformStruct_loop opts el tp fs flds imports fieldNum
      else if gf_Embedded f
      then transformStruct_loop opts el tp fs flds imports fieldNum
      else case transformField opts f fieldNum el tp of
             (protoField, fieldImports) \<Rightarrow>
               if fld_Name protoField \<noteq> []
               then transformStruct_loop opts el tp fs (flds @ [protoField])
                      (imports @ fieldImports) (fieldNum + 1)
               else transformStruct_loop opts el tp fs flds imports fieldNum)"

text \<open>\<open>fragment\<close> is the zero value \<open>Proto{}\<close>, which the composite literals of
  the transformer fill in.\<close>

definition fragment :: Proto where
  "fragment =
     \<lparr> Syntax = [], Package = [], Options = Map.empty, Imports = [], Enums = [],
       Messages = [], Services = [] \<rparr>"

definition transformStruct :: "TransformOptions \<Rightarrow> GoStruct \<Rightarrow> string set \<Rightarrow> Proto" where
  "transformStruct opts s enumLookup =
     (if tag_of (gs_Tags s) ''go2proto'' = ''false'' then Empty ProtoMonoid
      else if gs_Name s \<noteq> [] \<and> IsLower (hd (gs_Name s)) then Empty ProtoMonoid
      else case transformStruct_loop opts enumLookup (set (gs_TypeParams s)) (gs_Fields s) [] [] 1 of
             (flds, imports) \<Rightarrow>
               fragment\<lparr> Messages :=
                            [ProtoMessage (gs_Name s) flds [] []
                               (filterNonTagComments (gs_Comments s))],
                         Imports := Unique imports \<rparr>)"

definition buildEnumLookup :: "GoPackage \<Rightarrow> string set" where
  "buildEnumLookup pkg =
     set (map cg_TypeName (filter (\<lambda>cg. 2 \<le> length (cg_Values cg)) (Consts pkg))) \<union>
     set (map ga_Name (filter (\<lambda>alias. tag_of (ga_Tags alias) ''go2proto:enum'' = ''true'')
                         (Aliases pkg)))"

text \<open>\<open>transformEnum\<close> is the body of the loop of \<open>transformEnums\<close> for a group
  that is in the lookup.\<close>

definition transformEnum :: "GoConstGroup \<Rightarrow> ProtoEnum" where
  "transformEnum cg =
     \<lparr> enum_Name = cg_TypeName cg,
       enum_Values =
         map (\<lambda>cv. \<lparr> ev_Name = toEnumValueName (cg_TypeName cg) (cv_Name cv),
                     ev_Number = cv_Value cv, ev_Comments = cv_Comments cv \<rparr>)
           (cg_Values cg),
       enum_Comments = [] \<rparr>"

definition transformEnums :: "GoPackage \<Rightarrow> string set \<Rightarrow> Proto" where
  "transformEnums pkg enumLookup =
     fragment\<lparr> Enums := map transformEnum
                           (filter (\<lambda>cg. cg_TypeName cg \<in> enumLookup) (Consts pkg)) \<rparr>"

text \<open>The envelope messages: \<open>i\<close> is the index of the parameter, from 0.\<close>

definition envelopeField :: "TransformOptions \<Rightarrow> string \<Rightarrow> nat \<times> GoParam \<Rightarrow> ProtoField" where
  "envelopeField opts fallback ip =
     (case ip of (i, p) \<Rightarrow>
        (case transformType (TypeMappings opts) (gp_Type p) {} {} of
           (protoType, imports, repeated, isMap, mapKey, mapValue) \<Rightarrow>
             (let name = (if gp_Name p = [] then fallback @ itoa (i + 1) else gp_Name p);
                  field = emptyField\<lparr> fld_Name := toSnakeCase name, fld_Type := protoType,
                                      fld_Number := int i + 1, fld_Repeated := repeated \<rparr>
              in if isMap then field\<lparr> fld_MapKey := mapKey, fld_MapValue := mapValue \<rparr>
                 else field)))"

definition generateRequestMessage :: "TransformOptions \<Rightarrow> string \<Rightarrow> GoParam list \<Rightarrow> ProtoMessage" where
  "generateRequestMessage opts methodName params =
     ProtoMessage (methodName @ ''Request'')
       (map (envelopeField opts ''arg'') (enumerate 0 params)) [] [] []"

definition generateResponseMessage :: "TransformOptions \<Rightarrow> string \<Rightarrow> GoParam list \<Rightarrow> ProtoMessage" where
  "generateResponseMessage opts methodName results =
     ProtoMessage (methodName @ ''Response'')
       (map (envelopeField opts ''result'') (enumerate 0 results)) [] [] []"

definition isContext :: "GoParam \<Rightarrow> bool" where
  "isContext p =
     (case gp_Type p of
        NamedType pkg name \<Rightarrow> pkg = ''context'' \<and> name = ''Context''
      | _ \<Rightarrow> False)"

definition isError :: "GoParam \<Rightarrow> bool" where
  "isError p = (case gp_Type p of BasicType name \<Rightarrow> name = ''error'' | _ \<Rightarrow> False)"

text \<open>\<open>emptyRPC\<close> is the zero value \<open>ProtoRPC{}\<close>.\<close>

definition emptyRPC :: ProtoRPC where
  "emptyRPC =
     \<lparr> rpc_Name = [], rpc_InputType = [], rpc_OutputType = [], rpc_ClientStreaming = False,
       rpc_ServerStreaming = False, rpc_Comments = [] \<rparr>"

text \<open>The input half and the output half of \<open>transformMethod\<close>: the type name, the
  envelope if one is made, and the imports the half adds.\<close>

definition methodInput ::
  "TransformOptions \<Rightarrow> string \<Rightarrow> GoParam list \<Rightarrow> string \<times> ProtoMessage option \<times> string list" where
  "methodInput opts methodName params =
     (if length params = 1 then
        (case gp_Type (params ! 0) of
           NamedType pkg name \<Rightarrow> (name, None, [])
         | _ \<Rightarrow> (let reqMsg = generateRequestMessage opts methodName params
                in (msg_Name reqMsg, Some reqMsg, [])))
      else if length params > 1 then
        (let reqMsg = generateRequestMessage opts methodName params
         in (msg_Name reqMsg, Some reqMsg, []))
      else (''google.protobuf.Empty'', None, [''google/protobuf/empty.proto'']))"

definition methodOutput ::
  "TransformOptions \<Rightarrow> string \<Rightarrow> GoParam list \<Rightarrow> string \<times> ProtoMessage option \<times> string list" where
  "methodOutput opts methodName results =
     (if length results = 1 then
        (let resultType = (case gp_Type (results ! 0) of
                             PointerType elem \<Rightarrow> elem
                           | t \<Rightarrow> t)
         in case resultType of
              NamedType pkg name \<Rightarrow> (name, None, [])
            | _ \<Rightarrow> (let respMsg = generateResponseMessage opts methodName results
                   in (msg_Name respMsg, Some respMsg, [])))
      else if length results > 1 then
        (let respMsg = generateResponseMessage opts methodName results
         in (msg_Name respMsg, Some respMsg, []))
      else (''google.protobuf.Empty'', None, [''google/protobuf/empty.proto'']))"

definition transformMethod ::
  "TransformOptions \<Rightarrow> GoMethod \<Rightarrow> string \<Rightarrow>
   ProtoRPC \<times> ProtoMessage option \<times> ProtoMessage option \<times> string list" where
  "transformMethod opts m serviceName =
     (let params = Filter (gm_Params m) (\<lambda>p. \<not> isContext p);
          results = Filter (gm_Results m) (\<lambda>p. \<not> isError p)
      in case methodInput opts (gm_Name m) params of
           (inputType, reqMsg, imports1) \<Rightarrow>
             (case methodOutput opts (gm_Name m) results of
                (outputType, respMsg, imports2) \<Rightarrow>
                  (emptyRPC\<lparr> rpc_Name := gm_Name m, rpc_InputType := inputType,
                             rpc_OutputType := outputType \<rparr>,
                   reqMsg, respMsg, imports1 @ imports2)))"

definition optList :: "'a option \<Rightarrow> 'a list" where
  "optList x = (case x of Some v \<Rightarrow> [v] | None \<Rightarrow> [])"

fun transformInterface_loop ::
  "TransformOptions \<Rightarrow> string \<Rightarrow> GoMethod list \<Rightarrow> ProtoRPC list \<Rightarrow> ProtoMessage list \<Rightarrow>
   string list \<Rightarrow> ProtoRPC list \<times> ProtoMessage list \<times> string list" where
  "transformInterface_loop opts serviceName [] methods messages imports =
     (methods, messages, imports)"
| "transformInterface_loop opts serviceName (m # ms) methods messages imports =
     (case transformMethod opts m serviceName of
        (rpc, reqMsg, respMsg, methodImports) \<Rightarrow>
          transformInterface_loop opts serviceName ms (methods @ [rpc])
            (messages @ optList reqMsg @ optList respMsg) (imports @ methodImports))"

definition transformInterface :: "TransformOptions \<Rightarrow> GoInterface \<Rightarrow> Proto" where
  "transformInterface opts i =
     (if tag_of (gi_Tags i) ''go2proto:service'' \<noteq> ''true'' \<and> tag_of (gi_Tags i) ''go2proto'' \<noteq> ''service''
      then Empty ProtoMonoid
      else case transformInterface_loop opts (gi_Name i) (gi_Methods i) [] [] [] of
             (methods, messages, imports) \<Rightarrow>
               fragment\<lparr> Services := [\<lparr> svc_Name = gi_Name i, svc_Methods = methods,
                                         svc_Comments = filterNonTagComments (gi_Comments i) \<rparr>],
                         Messages := messages,
                         Imports := Unique imports \<rparr>)"

text \<open>\<open>packageBase\<close> is the fragment \<open>base\<close> of \<open>transformPackage\<close>.\<close>

definition packageBase :: "TransformOptions \<Rightarrow> GoPackage \<Rightarrow> Proto" where
  "packageBase opts pkg =
     (let protoPackage = (if opt_PackageName opts = [] then toProtoPackage (pkg_Path pkg)
                          else opt_PackageName opts);
          goPackage = (if opt_GoPackage opts = [] then pkg_Path pkg else opt_GoPackage opts)
      in fragment\<lparr> Syntax := ''proto3'', Package := protoPackage,
                    Options := [''go_package'' \<mapsto> goPackage] \<rparr>)"

definition transformPackage :: "TransformOptions \<Rightarrow> GoPackage \<Rightarrow> Proto" where
  "transformPackage opts pkg =
     (let enumLookup = buildEnumLookup pkg;
          base = packageBase opts pkg;
          enums = transformEnums pkg enumLookup;
          messages = FoldMap (Structs pkg) ProtoMonoid (\<lambda>s. transformStruct opts s enumLookup);
          services = FoldMap (Interfaces pkg) ProtoMonoid (\<lambda>i. transformInterface opts i)
      in Concat ProtoMonoid [base, enums, messages, services])"

definition Transform :: "TransformOptions \<Rightarrow> GoPackage list \<Rightarrow> Proto" where
  "Transform opts pkgs = FoldMap pkgs ProtoMonoid (transformPackage opts)"

section \<open>Runs: the order in which a map is visited\<close>

text \<open>
  Go leaves open the order in which \<open>range\<close> visits the entries of a map, and the
  order may change from one run to the next. The transformer ranges over a map in one
  place only, the two loops of \<open>ProtoMonoid\<close>'s \<open>Append\<close> that copy the options.
  A visiting order of a map is a list of its entries with every key once; a run of
  \<open>Append\<close> picks one order for each loop, and a run of a fold makes one run of
  \<open>Append\<close> per element.
\<close>

definition visits :: "(string \<rightharpoonup> string) \<Rightarrow> (string \<times> string) list \<Rightarrow> bool" where
  "visits m es \<longleftrightarrow> distinct (map fst es) \<and> map_of es = m"

definition range_assign ::
  "(string \<rightharpoonup> string) \<Rightarrow> (string \<times> string) list \<Rightarrow> (string \<rightharpoonup> string)" where
  "range_assign opts es = foldl (\<lambda>opts (k, v). opts(k \<mapsto> v)) opts es"

definition Append_in ::
  "(string \<times> string) list \<Rightarrow> (string \<times> string) list \<Rightarrow> Proto \<Rightarrow> Proto \<Rightarrow> Proto" where
  "Append_in ea eb a b =
     \<lparr> Syntax = Coalesce [Syntax a, Syntax b],
       Package = Coalesce [Package a, Package b],
       Options = range_assign (range_assign Map.empty ea) eb,
       Imports = Unique (Imports a @ Imports b),
       Enums = Enums a @ Enums b,
       Messages = Messages a @ Messages b,
       Services = Services a @ Services b \<rparr>"

inductive Append_run :: "Proto \<Rightarrow> Proto \<Rightarrow> Proto \<Rightarrow> bool" where
  "visits (Options a) ea \<Longrightarrow> visits (Options b) eb \<Longrightarrow> Append_run a b (Append_in ea eb a b)"

inductive FoldMap_run :: "('a \<Rightarrow> Proto \<Rightarrow> bool) \<Rightarrow> Proto \<Rightarrow> 'a list \<Rightarrow> Proto \<Rightarrow> bool"
  for F :: "'a \<Rightarrow> Proto \<Rightarrow> bool" where
  "FoldMap_run F result [] result"
| "F x y \<Longrightarrow> Append_run result y result' \<Longrightarrow> FoldMap_run F result' xs r \<Longrightarrow>
   FoldMap_run F result (x # xs) r"

definition Concat_run :: "Proto list \<Rightarrow> Proto \<Rightarrow> bool" where
  "Concat_run xs r = FoldMap_run (\<lambda>x y. y = x) (Empty ProtoMonoid) xs r"

definition transformPackage_run :: "TransformOptions \<Rightarrow> GoPackage \<Rightarrow> Proto \<Rightarrow> bool" where
  "transformPackage_run opts pkg r \<longleftrightarrow>
     (\<exists>messages services.
        FoldMap_run (\<lambda>s y. y = transformStruct opts s (buildEnumLookup pkg))
          (Empty ProtoMonoid) (Structs pkg) messages \<and>
        FoldMap_run (\<lambda>i y. y = transformInterface opts i)
          (Empty ProtoMonoid) (Interfaces pkg) services \<and>
        Concat_run [packageBase opts pkg, transformEnums pkg (buildEnumLookup pkg),
                    messages, services] r)"

definition Transform_run :: "TransformOptions \<Rightarrow> GoPackage list \<Rightarrow> Proto \<Rightarrow> bool" where
  "Transform_run opts pkgs r = FoldMap_run (transformPackage_run opts) (Empty ProtoMonoid) pkgs r"

section \<open>Vocabulary of the properties\<close>

text \<open>A fragment on which \<open>Empty\<close> acts as an identity: it carries the syntax marker
  of \<open>Empty\<close> and lists no import twice.\<close>

definition settled :: "Proto \<Rightarrow> bool" where
  "settled p \<longleftrightarrow> Syntax p = ''proto3'' \<and> distinct (Imports p)"

definition finiteOptions :: "Proto \<Rightarrow> bool" where
  "finiteOptions p \<longleftrightarrow> finite (dom (Options p))"

text \<open>Numbered 1, 2, ..., in order.\<close>

definition sequential :: "ProtoField list \<Rightarrow> bool" where
  "sequential flds \<longleftrightarrow> map fld_Number flds = map int [1..<Suc (length flds)]"

text \<open>The same field with no tag at all, and a struct field as it is read when a tag
  that \<open>parseProtobufTag\<close> rejects is dropped.\<close>

definition clearTag :: "GoField \<Rightarrow> GoField" where
  "clearTag f =
     GoField (gf_Name f) (gf_Type f) [] (gf_Embedded f) (gf_Comments f) (gf_Exported f)"

definition ignoreRejected :: "GoField \<Rightarrow> GoField" where
  "ignoreRejected f = (if parseProtobufTag (gf_Tag f) = None then clearTag f else f)"

text \<open>
  The constants of a declaration as the loop of \<open>extractConsts\<close> meets them, in runs.
  A run is opened by a value spec whose type is an identifier other than the current
  type: there the counter goes back to 0. It takes the names of that spec and of the
  specs after it that leave the current type as it is, up to the next change of type or
  the end of the declaration. While there is no current type, names are passed over, so
  the run of the empty type has no names. \<open>declRuns specs cur run\<close> lists the runs
  from a point where the current type is \<open>cur\<close> and its run holds \<open>run\<close> so far;
  a declaration starts with no current type.
\<close>

fun declRuns :: "Spec list \<Rightarrow> string \<Rightarrow> string list \<Rightarrow> (string \<times> string list) list" where
  "declRuns [] cur run = [(cur, run)]"
| "declRuns (OtherSpec # specs) cur run = declRuns specs cur run"
| "declRuns (ValueSpec ty names doc # specs) cur run =
     (case ty of
        Ident n \<Rightarrow>
          if cur \<noteq> n then (cur, run) # declRuns specs n (if n = [] then [] else names)
          else declRuns specs cur (if cur = [] then [] else run @ names)
      | _ \<Rightarrow> declRuns specs cur (if cur = [] then [] else run @ names))"

text \<open>The runs of the type \<open>t\<close> in the declarations of a package, in order.\<close>

definition typeRuns :: "string \<Rightarrow> Spec list list \<Rightarrow> string list list" where
  "typeRuns t decls =
     map snd (filter (\<lambda>r. fst r = t) (concat (map (\<lambda>d. declRuns d [] []) decls)))"

text \<open>The names of a run with their positions counted from \<open>i\<close>, and those of them
  that are exported.\<close>

fun positions :: "int \<Rightarrow> string list \<Rightarrow> (string \<times> int) list" where
  "positions i [] = []"
| "positions i (n # ns) = (n, i) # positions (i + 1) ns"

definition exportedPositions :: "(string \<Rightarrow> bool) \<Rightarrow> int \<Rightarrow> string list \<Rightarrow> (string \<times> int) list" where
  "exportedPositions exported i names = filter (\<lambda>p. exported (fst p)) (positions i names)"

definition groupValues :: "(string \<rightharpoonup> GoConstGroup) \<Rightarrow> string \<Rightarrow> GoConstValue list" where
  "groupValues groups t = (case groups t of Some g \<Rightarrow> cg_Values g | None \<Rightarrow> [])"

definition numbered :: "GoConstValue list \<Rightarrow> (string \<times> int) list" where
  "numbered vals = map (\<lambda>v. (cv_Name v, cv_Value v)) vals"

section \<open>Sample inputs\<close>

text \<open>The \<open>models\<close> package of the repository's example: \<open>Status\<close>, \<open>User\<close> and
  \<open>UserService\<close>.\<close>

definition statusBlock :: "Spec list" where
  "statusBlock =
     [ValueSpec (Ident ''Status'') [''StatusUnknown''] [],
      ValueSpec NoExpr [''StatusActive''] [],
      ValueSpec NoExpr [''StatusInactive''] []]"

definition statusGroup :: GoConstGroup where
  "statusGroup =
     \<lparr> cg_TypeName = ''Status'',
       cg_Values = [\<lparr> cv_Name = ''StatusUnknown'', cv_Value = 0, cv_Comments = [] \<rparr>,
                    \<lparr> cv_Name = ''StatusActive'', cv_Value = 1, cv_Comments = [] \<rparr>,
                    \<lparr> cv_Name = ''StatusInactive'', cv_Value = 2, cv_Comments = [] \<rparr>] \<rparr>"

definition userStruct :: GoStruct where
  "userStruct =
     \<lparr> gs_Name = ''User'',
       gs_Fields =
         [GoField ''ID'' (BasicType ''string'') [] False [] True,
          GoField ''Email'' (BasicType ''string'') [] False [] True,
          GoField ''secret'' (BasicType ''string'') [] False [] False,
          GoField ''Status'' (NamedType [] ''Status'') [] False [] True,
          GoField ''CreatedAt'' (NamedType ''time'' ''Time'') [] False [] True],
       gs_Comments = [''User represents a user.''], gs_Tags = Map.empty, gs_TypeParams = [] \<rparr>"

definition getUser :: GoMethod where
  "getUser =
     GoMethod ''GetUser''
       [GoParam ''ctx'' (NamedType ''context'' ''Context''), GoParam ''id'' (BasicType ''string'')]
       [GoParam [] (PointerType (NamedType [] ''User'')), GoParam [] (BasicType ''error'')]"

definition userService :: GoInterface where
  "userService =
     \<lparr> gi_Name = ''UserService'', gi_Methods = [getUser],
       gi_Comments = [''+go2proto:service'', ''UserService defines user operations.''],
       gi_Tags = [''go2proto:service'' \<mapsto> ''true''] \<rparr>"

definition modelsPkg :: GoPackage where
  "modelsPkg =
     \<lparr> pkg_Path = ''example.com/models'', pkg_Name = ''models'', Structs = [userStruct],
       Interfaces = [userService], Aliases = [], Consts = [statusGroup] \<rparr>"

text \<open>A second package, folded after the first in one-file mode.\<close>

definition billingPkg :: GoPackage where
  "billingPkg =
     \<lparr> pkg_Path = ''example.com/billing'', pkg_Name = ''billing'', Structs = [],
       Interfaces = [], Aliases = [], Consts = [] \<rparr>"

text \<open>A field with the wire tag \<open>protobuf:"bytes,5,name=data"\<close>, one whose tag has a
  number that is not a number, \<open>protobuf:"varint,x,name=id"\<close>, and one with a tag of
  another key, \<open>json:"id"\<close>.\<close>

definition taggedField :: GoField where
  "taggedField =
     GoField ''Data'' (SliceType (BasicType ''byte''))
       (''protobuf:'' @ [dquote] @ ''bytes,5,name=data'' @ [dquote]) False [] True"

definition blobStruct :: GoStruct where
  "blobStruct =
     \<lparr> gs_Name = ''Blob'', gs_Fields = [taggedField], gs_Comments = [], gs_Tags = Map.empty,
       gs_TypeParams = [] \<rparr>"

definition badNumberField :: GoField where
  "badNumberField =
     GoField ''ID'' (BasicType ''string'')
       (''protobuf:'' @ [dquote] @ ''varint,x,name=id'' @ [dquote]) False [] True"

definition badNumberStruct :: GoStruct where
  "badNumberStruct =
     \<lparr> gs_Name = ''Account'', gs_Fields = [badNumberField], gs_Comments = [],
       gs_Tags = Map.empty, gs_TypeParams = [] \<rparr>"

definition jsonField :: GoField where
  "jsonField =
     GoField ''ID'' (BasicType ''string'')
       ([backtick] @ ''json:'' @ [dquote] @ ''id'' @ [dquote] @ [backtick]) False [] True"

text \<open>A field whose tag, \<open>protobuf:"bytes,2,opt"\<close>, names no field, and a byte
  slice tagged \<open>protobuf:"varint,2,rep,name=data"\<close>.\<close>

definition noNameField :: GoField where
  "noNameField =
     GoField ''Email'' (BasicType ''string'')
       (''protobuf:'' @ [dquote] @ ''bytes,2,opt'' @ [dquote]) False [] True"

definition contactStruct :: GoStruct where
  "contactStruct =
     \<lparr> gs_Name = ''Contact'', gs_Fields = [noNameField], gs_Comments = [],
       gs_Tags = Map.empty, gs_TypeParams = [] \<rparr>"

definition repeatedTagField :: GoField where
  "repeatedTagField =
     GoField ''Data'' (SliceType (BasicType ''byte''))
       (''protobuf:'' @ [dquote] @ ''varint,2,rep,name=data'' @ [dquote]) False [] True"

definition chunkStruct :: GoStruct where
  "chunkStruct =
     \<lparr> gs_Name = ''Chunk'', gs_Fields = [repeatedTagField], gs_Comments = [],
       gs_Tags = Map.empty, gs_TypeParams = [] \<rparr>"

text \<open>A constant block whose first constant is not exported, and the group and package
  the parser makes of it.\<close>

definition hiddenFirstBlock :: "Spec list" where
  "hiddenFirstBlock =
     [ValueSpec (Ident ''Status'') [''statusUnknown''] [],
      ValueSpec NoExpr [''StatusActive''] [],
      ValueSpec NoExpr [''StatusInactive''] []]"

definition hiddenFirstGroup :: GoConstGroup where
  "hiddenFirstGroup =
     \<lparr> cg_TypeName = ''Status'',
       cg_Values = [\<lparr> cv_Name = ''StatusActive'', cv_Value = 1, cv_Comments = [] \<rparr>,
                    \<lparr> cv_Name = ''StatusInactive'', cv_Value = 2, cv_Comments = [] \<rparr>] \<rparr>"

definition hiddenFirstPkg :: GoPackage where
  "hiddenFirstPkg =
     \<lparr> pkg_Path = ''example.com/models'', pkg_Name = ''models'', Structs = [],
       Interfaces = [], Aliases = [], Consts = [hiddenFirstGroup] \<rparr>"

text \<open>A block with a constant that is not exported after the first one, followed by a
  declaration of an untyped constant that is not exported either.\<close>

definition hiddenLaterBlock :: "Spec list" where
  "hiddenLaterBlock =
     [ValueSpec (Ident ''Status'') [''StatusUnknown''] [],
      ValueSpec NoExpr [''statusInternal''] [],
      ValueSpec NoExpr [''StatusActive''] []]"

definition retriesBlock :: "Spec list" where
  "retriesBlock = [ValueSpec NoExpr [''maxRetries''] []]"

definition hiddenLaterGroup :: GoConstGroup where
  "hiddenLaterGroup =
     \<lparr> cg_TypeName = ''Status'',
       cg_Values = [\<lparr> cv_Name = ''StatusUnknown'', cv_Value = 0, cv_Comments = [] \<rparr>,
                    \<lparr> cv_Name = ''StatusActive'', cv_Value = 2, cv_Comments = [] \<rparr>] \<rparr>"

definition hiddenLaterPkg :: GoPackage where
  "hiddenLaterPkg =
     \<lparr> pkg_Path = ''example.com/models'', pkg_Name = ''models'', Structs = [],
       Interfaces = [], Aliases = [], Consts = [hiddenLaterGroup] \<rparr>"

text \<open>Pointer fields, and a method whose parameter maps to a well-known type.\<close>

definition agePointer :: GoField where
  "agePointer = GoField ''Age'' (PointerType (BasicType ''int'')) [] False [] True"

definition ownerPointer :: GoField where
  "ownerPointer = GoField ''Owner'' (PointerType (NamedType [] ''User'')) [] False [] True"

definition byteSliceField :: GoField where
  "byteSliceField = GoField ''Payload'' (SliceType (BasicType ''byte'')) [] False [] True"

definition listSince :: GoMethod where
  "listSince =
     GoMethod ''ListSince''
       [GoParam ''ctx'' (NamedType ''context'' ''Context''),
        GoParam ''since'' (NamedType ''time'' ''Time''),
        GoParam ''limit'' (BasicType ''int'')]
       [GoParam [] (SliceType (NamedType [] ''User'')), GoParam [] (BasicType ''error'')]"

definition auditService :: GoInterface where
  "auditService =
     \<lparr> gi_Name = ''AuditService'', gi_Methods = [listSince], gi_Comments = [],
       gi_Tags = [''go2proto:service'' \<mapsto> ''true''] \<rparr>"

definition tagsField :: GoField where
  "tagsField =
     GoField ''Tags'' (MapType (BasicType ''string'') (BasicType ''string'')) [] False [] True"

text \<open>A generic struct \<open>Result[T]\<close>, and a service method that takes nothing but
  a context.\<close>

definition resultStruct :: GoStruct where
  "resultStruct =
     \<lparr> gs_Name = ''Result'',
       gs_Fields = [GoField ''Value'' (NamedType [] ''T'') [] False [] True,
                    GoField ''Error'' (BasicType ''string'') [] False [] True],
       gs_Comments = [], gs_Tags = Map.empty, gs_TypeParams = [''T''] \<rparr>"

definition ping :: GoMethod where
  "ping =
     GoMethod ''Ping'' [GoParam ''ctx'' (NamedType ''context'' ''Context'')]
       [GoParam [] (BasicType ''error'')]"

definition healthService :: GoInterface where
  "healthService =
     \<lparr> gi_Name = ''HealthService'', gi_Methods = [ping], gi_Comments = [],
       gi_Tags = [''go2proto:service'' \<mapsto> ''true''] \<rparr>"

section \<open>Properties of the composition\<close>

lemma Append_ProtoMonoid:
  "Append ProtoMonoid a b =
     \<lparr> Syntax = Coalesce [Syntax a, Syntax b],
       Package = Coalesce [Package a, Package b],
       Options = Options a ++ Options b,
       Imports = Unique (Imports a @ Imports b),
       Enums = Enums a @ Enums b,
       Messages = Messages a @ Messages b,
       Services = Services a @ Services b \<rparr>"
  by (simp add: ProtoMonoid_def)

lemma Empty_ProtoMonoid:
  "Empty ProtoMonoid =
     \<lparr> Syntax = ''proto3'', Package = [], Options = Map.empty, Imports = [],
       Enums = [], Messages = [], Services = [] \<rparr>"
  by (simp add: ProtoMonoid_def)

text \<open>
  C1 (as amended). When two fragments are merged, the syntax marker and the package name
  of the result are the first non-empty value: \<open>a\<close>'s if it has one, else \<open>b\<close>'s.
  The options are merged the other way round: for every key the result holds \<open>b\<close>'s
  value when \<open>b\<close> has the key, and \<open>a\<close>'s value only when \<open>b\<close> does not.
\<close>

theorem Append_scalar_fields:
  "Syntax (Append ProtoMonoid a b) = (if Syntax a \<noteq> [] then Syntax a else Syntax b) \<and>
   Package (Append ProtoMonoid a b) = (if Package a \<noteq> [] then Package a else Package b) \<and>
   Options (Append ProtoMonoid a b) k =
     (case Options b k of Some v \<Rightarrow> Some v | None \<Rightarrow> Options a k)"
  by (simp add: Append_ProtoMonoid map_add_def)

text \<open>
  C1 as stated fails on the options: merging the base fragments of two packages, the
  first fragment has \<open>go_package\<close> set and the second overrides it, while the package
  name stays that of the first.
\<close>

theorem Append_option_overridden:
  "Options (packageBase DefaultOptions modelsPkg) ''go_package'' = Some ''example.com/models'' \<and>
   Options (Append ProtoMonoid (packageBase DefaultOptions modelsPkg)
              (packageBase DefaultOptions billingPkg)) ''go_package'' = Some ''example.com/billing'' \<and>
   Package (Append ProtoMonoid (packageBase DefaultOptions modelsPkg)
              (packageBase DefaultOptions billingPkg)) = ''example.com.models''"
  by (simp add: Append_ProtoMonoid packageBase_def DefaultOptions_def modelsPkg_def
        billingPkg_def fragment_def toProtoPackage_def ReplaceAll_def)

subsection \<open>\<open>Unique\<close>\<close>

lemma Unique_loop_append:
  "Unique_loop seen (xs @ ys) = Unique_loop seen xs @ Unique_loop (seen \<union> set xs) ys"
  by (induction xs arbitrary: seen) (auto simp: insert_absorb)

lemma set_Unique_loop: "set (Unique_loop seen xs) = set xs - seen"
  by (induction xs arbitrary: seen) auto

lemma distinct_Unique_loop: "distinct (Unique_loop seen xs)"
  by (induction xs arbitrary: seen) (auto simp: set_Unique_loop)

lemma Unique_loop_nested:
  "Unique_loop seen (Unique_loop seen' xs) = Unique_loop (seen \<union> seen') xs"
proof (induction xs arbitrary: seen seen')
  case Nil
  show ?case by simp
next
  case (Cons x xs)
  show ?case
  proof (cases "x \<in> seen'")
    case True
    then show ?thesis by (simp add: Cons.IH)
  next
    case False
    show ?thesis
    proof (cases "x \<in> seen")
      case True
      then have "seen \<union> insert x seen' = seen \<union> seen'" by auto
      with True False show ?thesis by (simp add: Cons.IH)
    next
      case fresh: False
      have "insert x seen \<union> insert x seen' = insert x (seen \<union> seen')" by auto
      with fresh False show ?thesis by (simp add: Cons.IH)
    qed
  qed
qed

lemma Unique_loop_id: "distinct xs \<Longrightarrow> set xs \<inter> seen = {} \<Longrightarrow> Unique_loop seen xs = xs"
  by (induction xs arbitrary: seen) auto

lemma Unique_fixed: "Unique xs = xs \<longleftrightarrow> distinct xs"
proof
  assume "Unique xs = xs"
  then show "distinct xs"
    using distinct_Unique_loop [of "{}" xs] by (simp add: Unique_def)
next
  assume "distinct xs"
  then show "Unique xs = xs" by (simp add: Unique_def Unique_loop_id)
qed

lemma Unique_assoc: "Unique (Unique (as @ bs) @ cs) = Unique (as @ Unique (bs @ cs))"
proof -
  have "Unique (Unique (as @ bs) @ cs) = Unique ((as @ bs) @ cs)"
    unfolding Unique_def
    by (simp only: Unique_loop_append [of "{}" "Unique_loop {} (as @ bs)" cs]
          Unique_loop_nested set_Unique_loop Un_empty_left Diff_empty
          Unique_loop_append [of "{}" "as @ bs" cs])
  moreover have "Unique (as @ Unique (bs @ cs)) = Unique (as @ (bs @ cs))"
    unfolding Unique_def
    by (simp only: Unique_loop_append [of "{}" as] Unique_loop_nested Un_empty_left Un_empty_right)
  ultimately show ?thesis by simp
qed

subsection \<open>The laws of \<open>ProtoMonoid\<close>\<close>

lemma Append_assoc:
  "Append ProtoMonoid (Append ProtoMonoid a b) c = Append ProtoMonoid a (Append ProtoMonoid b c)"
  by (simp add: Append_ProtoMonoid Unique_assoc)

lemma Append_Empty_left:
  "Append ProtoMonoid (Empty ProtoMonoid) x = x \<longleftrightarrow> Syntax x = ''proto3'' \<and> distinct (Imports x)"
  by (cases x) (auto simp: Append_ProtoMonoid Empty_ProtoMonoid Unique_fixed)

lemma Append_Empty_right:
  "Append ProtoMonoid x (Empty ProtoMonoid) = x \<longleftrightarrow> Syntax x \<noteq> [] \<and> distinct (Imports x)"
  by (cases x) (auto simp: Append_ProtoMonoid Empty_ProtoMonoid Unique_fixed)

lemma settled_Empty: "settled (Empty ProtoMonoid)"
  by (simp add: settled_def Empty_ProtoMonoid)

lemma settled_foldl:
  "settled acc \<Longrightarrow> settled (foldl (\<lambda>r x. Append ProtoMonoid r (f x)) acc xs)"
proof (induction xs arbitrary: acc)
  case Nil
  then show ?case by simp
next
  case (Cons x xs)
  have "settled (Append ProtoMonoid acc (f x))"
    using Cons.prems
    by (simp add: settled_def Append_ProtoMonoid Unique_def distinct_Unique_loop)
  then show ?case by (simp add: Cons.IH)
qed

lemma Append_foldl:
  "Append ProtoMonoid a (foldl (\<lambda>r x. Append ProtoMonoid r (f x)) b xs) =
   foldl (\<lambda>r x. Append ProtoMonoid r (f x)) (Append ProtoMonoid a b) xs"
  by (induction xs arbitrary: b) (simp_all add: Append_assoc [symmetric])

lemma settled_Concat: "settled (Concat ProtoMonoid xs)"
  unfolding Concat_def by (rule settled_foldl [OF settled_Empty, where f = "\<lambda>x. x"])

lemma Concat_append:
  "Concat ProtoMonoid (xs @ ys) = Append ProtoMonoid (Concat ProtoMonoid xs) (Concat ProtoMonoid ys)"
proof -
  have "Append ProtoMonoid (Concat ProtoMonoid xs) (Empty ProtoMonoid) = Concat ProtoMonoid xs"
    using settled_Concat [of xs] by (simp add: Append_Empty_right settled_def)
  then show ?thesis
    unfolding Concat_def
    by (simp add: Append_foldl [where f = "\<lambda>x. x"])
qed

text \<open>
  C2 (as amended). \<open>Append\<close> is associative for all fragments. \<open>Empty\<close> is a two-sided
  identity for every fragment whose syntax marker is \<open>proto3\<close> and whose import list
  names no import twice; every result of a fold is such a fragment, so folding a list of
  fragments in two groups and merging the two results gives the IR of the single fold.
\<close>

theorem ProtoMonoid_laws:
  "Append ProtoMonoid (Append ProtoMonoid a b) c = Append ProtoMonoid a (Append ProtoMonoid b c) \<and>
   (Syntax x = ''proto3'' \<and> distinct (Imports x) \<longrightarrow>
      Append ProtoMonoid (Empty ProtoMonoid) x = x \<and> Append ProtoMonoid x (Empty ProtoMonoid) = x) \<and>
   Syntax (Concat ProtoMonoid xs) = ''proto3'' \<and> distinct (Imports (Concat ProtoMonoid xs)) \<and>
   Concat ProtoMonoid (xs @ ys) =
     Append ProtoMonoid (Concat ProtoMonoid xs) (Concat ProtoMonoid ys)"
  using settled_Concat [of xs]
  by (simp add: Append_assoc Append_Empty_left Append_Empty_right Concat_append settled_def)

text \<open>The identity laws at the base fragment of a package, which \<open>transformPackage\<close>
  folds first.\<close>

theorem ProtoMonoid_laws_witness:
  "Syntax (packageBase DefaultOptions modelsPkg) = ''proto3'' \<and>
   distinct (Imports (packageBase DefaultOptions modelsPkg)) \<and>
   Append ProtoMonoid (Empty ProtoMonoid) (packageBase DefaultOptions modelsPkg) =
     packageBase DefaultOptions modelsPkg \<and>
   Append ProtoMonoid (packageBase DefaultOptions modelsPkg) (Empty ProtoMonoid) =
     packageBase DefaultOptions modelsPkg"
proof -
  have h: "Syntax (packageBase DefaultOptions modelsPkg) = ''proto3'' \<and>
           distinct (Imports (packageBase DefaultOptions modelsPkg))"
    by (simp add: packageBase_def fragment_def Let_def)
  with ProtoMonoid_laws [where x = "packageBase DefaultOptions modelsPkg"]
  show ?thesis by blast
qed

text \<open>
  C2 as stated fails on the identity: the fragment that \<open>transformEnums\<close> returns for a
  package without constants has no syntax marker, and merging it with \<open>Empty\<close> on
  either side gives it the marker \<open>proto3\<close>. A fragment that lists an import twice
  loses the repetition.
\<close>

theorem Empty_not_identity:
  "Syntax (transformEnums billingPkg {}) = [] \<and>
   Syntax (Append ProtoMonoid (Empty ProtoMonoid) (transformEnums billingPkg {})) = ''proto3'' \<and>
   Syntax (Append ProtoMonoid (transformEnums billingPkg {}) (Empty ProtoMonoid)) = ''proto3'' \<and>
   Append ProtoMonoid (Empty ProtoMonoid) (transformEnums billingPkg {}) \<noteq> transformEnums billingPkg {} \<and>
   Imports (Append ProtoMonoid (Empty ProtoMonoid) (fragment\<lparr> Imports := [''a.proto'', ''a.proto''] \<rparr>))
     = [''a.proto'']"
  by (simp add: Append_Empty_left)
     (simp add: Append_ProtoMonoid Empty_ProtoMonoid transformEnums_def fragment_def Unique_def)

section \<open>Properties of struct fields\<close>

lemma parseProtobufTag_Nil: "parseProtobufTag [] = None"
  by (simp add: parseProtobufTag_def)

lemma transformField_untagged:
  "parseProtobufTag (gf_Tag f) = None \<Longrightarrow>
   transformField opts f num el tp =
     (case transformType (TypeMappings opts) (gf_Type f) el tp of
        (protoType, imps, repeated, isMap, mapKey, mapValue) \<Rightarrow>
          (\<lparr> fld_Name = toSnakeCase (gf_Name f), fld_Type = protoType, fld_Number = num,
              fld_Repeated = repeated,
              fld_Optional = (isPointerType (gf_Type f) \<and> isBasicProtoType protoType),
              fld_MapKey = mapKey, fld_MapValue = mapValue,
              fld_Comments = filterNonTagComments (gf_Comments f) \<rparr>,
           imps))"
  by (simp add: transformField_def)

lemma transformField_number:
  "parseProtobufTag (gf_Tag f) = None \<Longrightarrow> fld_Number (fst (transformField opts f num el tp)) = num"
  by (simp add: transformField_untagged split: prod.splits)

lemma sequential_snoc:
  "sequential flds \<Longrightarrow> fld_Number x = int (length flds) + 1 \<Longrightarrow> sequential (flds @ [x])"
  by (simp add: sequential_def)

lemma transformStruct_loop_sequential:
  assumes "\<forall>f\<in>set fs. (gf_Exported f \<or> IncludePrivate opts) \<longrightarrow> \<not> gf_Embedded f \<longrightarrow>
             parseProtobufTag (gf_Tag f) = None"
    and "sequential flds" and "fieldNum = int (length flds) + 1"
  shows "sequential (fst (transformStruct_loop opts el tp fs flds imps fieldNum))"
  using assms
proof (induction fs arbitrary: flds imps fieldNum)
  case Nil
  then show ?case by simp
next
  case (Cons f fs)
  show ?case
  proof (cases "(gf_Exported f \<or> IncludePrivate opts) \<and> \<not> gf_Embedded f")
    case False
    then show ?thesis using Cons by auto
  next
    case True
    then have untagged: "parseProtobufTag (gf_Tag f) = None" using Cons.prems(1) by auto
    obtain pf imps1 where tf: "transformField opts f fieldNum el tp = (pf, imps1)"
      by (cases "transformField opts f fieldNum el tp")
    have num: "fld_Number pf = fieldNum"
      using transformField_number [OF untagged, of opts fieldNum el tp] tf by simp
    show ?thesis
    proof (cases "fld_Name pf = []")
      case True
      with \<open>(gf_Exported f \<or> IncludePrivate opts) \<and> \<not> gf_Embedded f\<close> tf Cons show ?thesis
        by auto
    next
      case False
      have seq: "sequential (flds @ [pf])"
        using Cons.prems(2,3) num by (simp add: sequential_snoc)
      have "sequential (fst (transformStruct_loop opts el tp fs (flds @ [pf]) (imps @ imps1)
                               (fieldNum + 1)))"
        using Cons.prems(1,3) seq by (intro Cons.IH) auto
      with False True tf show ?thesis by auto
    qed
  qed
qed

lemma transformStruct_messages:
  "m \<in> set (Messages (transformStruct opts s el)) \<Longrightarrow>
   m = ProtoMessage (gs_Name s)
         (fst (transformStruct_loop opts el (set (gs_TypeParams s)) (gs_Fields s) [] [] 1)) [] []
         (filterNonTagComments (gs_Comments s)) \<and>
   \<not> (gs_Name s \<noteq> [] \<and> IsLower (hd (gs_Name s)))"
  by (auto simp: transformStruct_def Empty_ProtoMonoid fragment_def split: if_splits prod.splits)

text \<open>
  C3 (as amended). For every struct transformed into a message, if none of the fields the
  loop looks at (exported or private fields included, not embedded) carries a wire tag
  that \<open>parseProtobufTag\<close> accepts, then the N emitted fields are numbered exactly
  1, 2, ..., N in declaration order, however many source fields were skipped.
\<close>

theorem field_numbers_dense:
  assumes "\<forall>f\<in>set (gs_Fields s). (gf_Exported f \<or> IncludePrivate opts) \<longrightarrow> \<not> gf_Embedded f \<longrightarrow>
             parseProtobufTag (gf_Tag f) = None"
    and "m \<in> set (Messages (transformStruct opts s el))"
  shows "map fld_Number (msg_Fields m) = map int [1..<Suc (length (msg_Fields m))]"
proof -
  have "sequential (fst (transformStruct_loop opts el (set (gs_TypeParams s)) (gs_Fields s) [] [] 1))"
    by (rule transformStruct_loop_sequential [OF assms(1)]) (simp_all add: sequential_def)
  with transformStruct_messages [OF assms(2)] show ?thesis
    by (simp add: sequential_def)
qed

text \<open>The \<open>User\<close> struct of the example: five source fields, one of them private and
  skipped, four emitted fields numbered 1 to 4.\<close>

theorem field_numbers_dense_witness:
  "map (\<lambda>f. parseProtobufTag (gf_Tag f)) (gs_Fields userStruct) = [None, None, None, None, None] \<and>
   (\<exists>m\<in>set (Messages (transformStruct DefaultOptions userStruct {''Status''})).
      map fld_Name (msg_Fields m) = [''id'', ''email'', ''status'', ''created_at''] \<and>
      map fld_Number (msg_Fields m) = [1, 2, 3, 4])"
proof -
  let ?m = "ProtoMessage ''User''
     [\<lparr> fld_Name = ''id'', fld_Type = ''string'', fld_Number = 1, fld_Repeated = False,
         fld_Optional = False, fld_MapKey = [], fld_MapValue = [], fld_Comments = [] \<rparr>,
      \<lparr> fld_Name = ''email'', fld_Type = ''string'', fld_Number = 2, fld_Repeated = False,
         fld_Optional = False, fld_MapKey = [], fld_MapValue = [], fld_Comments = [] \<rparr>,
      \<lparr> fld_Name = ''status'', fld_Type = ''Status'', fld_Number = 3, fld_Repeated = False,
         fld_Optional = False, fld_MapKey = [], fld_MapValue = [], fld_Comments = [] \<rparr>,
      \<lparr> fld_Name = ''created_at'', fld_Type = ''google.protobuf.Timestamp'', fld_Number = 4,
         fld_Repeated = False, fld_Optional = False, fld_MapKey = [], fld_MapValue = [],
         fld_Comments = [] \<rparr>] [] [] [''User represents a user.'']"
  have h: "\<forall>f\<in>set (gs_Fields userStruct).
      (gf_Exported f \<or> IncludePrivate DefaultOptions) \<longrightarrow> \<not> gf_Embedded f \<longrightarrow>
      parseProtobufTag (gf_Tag f) = None"
    by (simp add: userStruct_def parseProtobufTag_Nil)
  have ms: "Messages (transformStruct DefaultOptions userStruct {''Status''}) = [?m]"
    by code_simp
  then have mem: "?m \<in> set (Messages (transformStruct DefaultOptions userStruct {''Status''}))"
    by simp
  have "map fld_Number (msg_Fields ?m) = map int [1..<Suc (length (msg_Fields ?m))]"
    by (rule field_numbers_dense [OF h mem])
  then have "map fld_Number (msg_Fields ?m) = [1, 2, 3, 4]"
    by (simp add: upt_rec)
  moreover have "map (\<lambda>f. parseProtobufTag (gf_Tag f)) (gs_Fields userStruct) =
      [None, None, None, None, None]"
    by (simp add: userStruct_def parseProtobufTag_Nil)
  ultimately show ?thesis using mem by (intro conjI bexI [of _ ?m]) simp_all
qed

text \<open>
  C3 as stated fails when a field carries an accepted wire tag: the struct \<open>Blob\<close> has
  one emitted field, and its number is the tag's 5, not 1.
\<close>

theorem field_number_from_tag:
  "Messages (transformStruct DefaultOptions blobStruct {}) =
     [ProtoMessage ''Blob''
        [\<lparr> fld_Name = ''data'', fld_Type = ''bytes'', fld_Number = 5, fld_Repeated = False,
            fld_Optional = False, fld_MapKey = [], fld_MapValue = [], fld_Comments = [] \<rparr>]
        [] [] []]"
  by code_simp

subsection \<open>Wire tags: the rejected and the malformed\<close>

lemma transformField_clearTag:
  "parseProtobufTag (gf_Tag f) = None \<Longrightarrow>
   transformField opts (clearTag f) num el tp = transformField opts f num el tp"
  by (simp add: clearTag_def transformField_def parseProtobufTag_Nil)

lemma transformField_ignoreRejected:
  "transformField opts (ignoreRejected f) num el tp = transformField opts f num el tp"
  by (simp add: ignoreRejected_def transformField_clearTag)

lemma ignoreRejected_flags:
  "gf_Exported (ignoreRejected f) = gf_Exported f"
  "gf_Embedded (ignoreRejected f) = gf_Embedded f"
  by (simp_all add: ignoreRejected_def clearTag_def)

lemma transformStruct_loop_ignoreRejected:
  "transformStruct_loop opts el tp (map ignoreRejected fs) flds imps fieldNum =
   transformStruct_loop opts el tp fs flds imps fieldNum"
  by (induction fs arbitrary: flds imps fieldNum)
     (simp_all add: transformField_ignoreRejected ignoreRejected_flags split: prod.splits)

text \<open>
  What \<open>parseProtobufTag\<close> rejects, it ignores. A wire-tag annotation is rejected
  exactly when the tag is empty, or holds no \<open>protobuf:"..."\<close> entry with a non-empty
  value, or the value has fewer than three comma-separated parts. A field with a rejected
  annotation is transformed exactly as the same field with no annotation: resolver
  inference with the sequence number it is given; and a struct is transformed the same
  with or without its rejected annotations.
\<close>

theorem rejected_tag_ignored:
  "(parseProtobufTag tag = None \<longleftrightarrow>
      tag = [] \<or>
      (case FindStringSubmatch (Trim tag backtick) of
         None \<Rightarrow> True
       | Some m \<Rightarrow> length (Split m (CHR '','')) < 3)) \<and>
   (parseProtobufTag (gf_Tag f) = None \<longrightarrow>
      transformField opts f num el tp = transformField opts (clearTag f) num el tp \<and>
      fld_Number (fst (transformField opts f num el tp)) = num \<and>
      fld_Type (fst (transformField opts f num el tp)) =
        fst (transformType (TypeMappings opts) (gf_Type f) el tp)) \<and>
   transformStruct opts (s\<lparr> gs_Fields := map ignoreRejected (gs_Fields s) \<rparr>) el =
     transformStruct opts s el"
proof (intro conjI impI)
  show "parseProtobufTag tag = None \<longleftrightarrow>
      tag = [] \<or>
      (case FindStringSubmatch (Trim tag backtick) of
         None \<Rightarrow> True
       | Some m \<Rightarrow> length (Split m (CHR '','')) < 3)"
    by (simp add: parseProtobufTag_def Let_def split: option.splits)
next
  assume "parseProtobufTag (gf_Tag f) = None"
  then show "transformField opts f num el tp = transformField opts (clearTag f) num el tp"
    by (simp add: transformField_clearTag)
next
  assume "parseProtobufTag (gf_Tag f) = None"
  then show "fld_Number (fst (transformField opts f num el tp)) = num"
    by (rule transformField_number)
next
  assume "parseProtobufTag (gf_Tag f) = None"
  then show "fld_Type (fst (transformField opts f num el tp)) =
        fst (transformType (TypeMappings opts) (gf_Type f) el tp)"
    by (simp add: transformField_untagged split: prod.splits)
next
  show "transformStruct opts (s\<lparr> gs_Fields := map ignoreRejected (gs_Fields s) \<rparr>) el =
     transformStruct opts s el"
    by (simp add: transformStruct_def transformStruct_loop_ignoreRejected)
qed

text \<open>A field tagged \<open>`json:"id"`\<close> only: the tag is rejected and the field comes
  out as \<open>string id = 3\<close> when 3 is the next number.\<close>

theorem rejected_tag_ignored_witness:
  "parseProtobufTag (gf_Tag jsonField) = None \<and>
   transformField DefaultOptions jsonField 3 {} {} =
     transformField DefaultOptions (clearTag jsonField) 3 {} {} \<and>
   fst (transformField DefaultOptions jsonField 3 {} {}) =
     \<lparr> fld_Name = ''id'', fld_Type = ''string'', fld_Number = 3, fld_Repeated = False,
       fld_Optional = False, fld_MapKey = [], fld_MapValue = [], fld_Comments = [] \<rparr>"
proof -
  have h: "parseProtobufTag (gf_Tag jsonField) = None"
    by code_simp
  have v: "fst (transformField DefaultOptions jsonField 3 {} {}) =
     \<lparr> fld_Name = ''id'', fld_Type = ''string'', fld_Number = 3, fld_Repeated = False,
       fld_Optional = False, fld_MapKey = [], fld_MapValue = [], fld_Comments = [] \<rparr>"
    by code_simp
  from rejected_tag_ignored [of "gf_Tag jsonField" jsonField DefaultOptions 3 "{}" "{}"] h v
  show ?thesis by blast
qed

text \<open>
  C5. A field whose wire-tag annotation is malformed is to be emitted as if it carried no
  annotation: resolver inference and the next sequential number. The code falls short of
  that for the malformed annotations it does not reject. The tag
  \<open>protobuf:"varint,x,name=id"\<close> has no number: the scan of \<open>x\<close> fails, the error
  is dropped, and the field \<open>ID string\<close> comes out with the tag's type and the number 0,
  \<open>int64 id = 0\<close>, where the same field without the annotation is \<open>string id = 1\<close>.
  The tag \<open>protobuf:"bytes,2,opt"\<close> names no field: it is accepted as well, the
  parsed field has an empty name, and the exported field \<open>Email\<close> is left out of the
  message, which without the annotation holds \<open>string email = 1\<close>.
\<close>

theorem malformed_tag_not_ignored:
  "Messages (transformStruct DefaultOptions badNumberStruct {}) =
     [ProtoMessage ''Account''
        [\<lparr> fld_Name = ''id'', fld_Type = ''int64'', fld_Number = 0, fld_Repeated = False,
            fld_Optional = False, fld_MapKey = [], fld_MapValue = [], fld_Comments = [] \<rparr>]
        [] [] []] \<and>
   Messages (transformStruct DefaultOptions
               (badNumberStruct\<lparr> gs_Fields := map clearTag (gs_Fields badNumberStruct) \<rparr>) {}) =
     [ProtoMessage ''Account''
        [\<lparr> fld_Name = ''id'', fld_Type = ''string'', fld_Number = 1, fld_Repeated = False,
            fld_Optional = False, fld_MapKey = [], fld_MapValue = [], fld_Comments = [] \<rparr>]
        [] [] []] \<and>
   Messages (transformStruct DefaultOptions contactStruct {}) =
     [ProtoMessage ''Contact'' [] [] [] []] \<and>
   Messages (transformStruct DefaultOptions
               (contactStruct\<lparr> gs_Fields := map clearTag (gs_Fields contactStruct) \<rparr>) {}) =
     [ProtoMessage ''Contact''
        [\<lparr> fld_Name = ''email'', fld_Type = ''string'', fld_Number = 1, fld_Repeated = False,
            fld_Optional = False, fld_MapKey = [], fld_MapValue = [], fld_Comments = [] \<rparr>]
        [] [] []]"
  by code_simp

subsection \<open>Pointers and byte slices\<close>

lemma isBasicProtoType_lower: "isBasicProtoType t \<Longrightarrow> t \<noteq> [] \<and> IsLower (hd t)"
  by (auto simp: isBasicProtoType_def IsLower_def)

lemma transformType_pointer:
  "transformType tm (PointerType elem) el tp = transformType tm elem el tp"
  by simp

text \<open>
  C6. For a struct field of pointer type on which no wire tag takes over, the emitted
  field's type is the resolved type of the pointee, and the field is marked optional if
  and only if that resolved type is one of the scalar type names. A pointer whose
  resolved type is the name of a message that \<open>transformStruct\<close> emits is never marked
  optional.
\<close>

theorem pointer_optional_iff_scalar:
  assumes "parseProtobufTag (gf_Tag f) = None" and "gf_Type f = PointerType elem"
  shows "fld_Type (fst (transformField opts f num el tp)) =
           fst (transformType (TypeMappings opts) elem el tp) \<and>
         (fld_Optional (fst (transformField opts f num el tp)) \<longleftrightarrow>
            isBasicProtoType (fst (transformType (TypeMappings opts) elem el tp))) \<and>
         (\<forall>m\<in>set (Messages (transformStruct opts' s el')).
            fst (transformType (TypeMappings opts) elem el tp) = msg_Name m \<longrightarrow>
            \<not> fld_Optional (fst (transformField opts f num el tp)))"
proof -
  let ?t = "fst (transformType (TypeMappings opts) elem el tp)"
  have ty: "fld_Type (fst (transformField opts f num el tp)) = ?t"
    using assms by (simp add: transformField_untagged split: prod.splits)
  have opt: "fld_Optional (fst (transformField opts f num el tp)) \<longleftrightarrow> isBasicProtoType ?t"
    using assms by (simp add: transformField_untagged isPointerType_def split: prod.splits)
  have "\<not> isBasicProtoType (msg_Name m)" if "m \<in> set (Messages (transformStruct opts' s el'))" for m
  proof
    assume "isBasicProtoType (msg_Name m)"
    then have "msg_Name m \<noteq> [] \<and> IsLower (hd (msg_Name m))" by (rule isBasicProtoType_lower)
    moreover from transformStruct_messages [OF that]
    have "msg_Name m = gs_Name s" "\<not> (gs_Name s \<noteq> [] \<and> IsLower (hd (gs_Name s)))" by auto
    ultimately show False by simp
  qed
  with ty opt show ?thesis by auto
qed

text \<open>\<open>Age *int\<close> is emitted as an optional \<open>int64\<close>; \<open>Owner *User\<close> is emitted
  with the type \<open>User\<close>, the message of the \<open>User\<close> struct, and is not optional.\<close>

theorem pointer_optional_iff_scalar_witness:
  "parseProtobufTag (gf_Tag agePointer) = None \<and>
   gf_Type agePointer = PointerType (BasicType ''int'') \<and>
   fld_Type (fst (transformField DefaultOptions agePointer 1 {} {})) = ''int64'' \<and>
   fld_Optional (fst (transformField DefaultOptions agePointer 1 {} {})) \<and>
   parseProtobufTag (gf_Tag ownerPointer) = None \<and>
   gf_Type ownerPointer = PointerType (NamedType [] ''User'') \<and>
   map msg_Name (Messages (transformStruct DefaultOptions userStruct {''Status''})) = [''User''] \<and>
   fld_Type (fst (transformField DefaultOptions ownerPointer 2 {} {})) = ''User'' \<and>
   \<not> fld_Optional (fst (transformField DefaultOptions ownerPointer 2 {} {}))"
proof -
  let ?msgs = "Messages (transformStruct DefaultOptions userStruct {''Status''})"
  let ?age = "fst (transformField DefaultOptions agePointer 1 {} {})"
  let ?owner = "fst (transformField DefaultOptions ownerPointer 2 {} {})"
  let ?int = "fst (transformType (TypeMappings DefaultOptions) (BasicType ''int'') {} {})"
  let ?user = "fst (transformType (TypeMappings DefaultOptions) (NamedType [] ''User'') {} {})"
  have a: "parseProtobufTag (gf_Tag agePointer) = None"
    "gf_Type agePointer = PointerType (BasicType ''int'')"
    by (simp_all add: agePointer_def parseProtobufTag_Nil)
  have o: "parseProtobufTag (gf_Tag ownerPointer) = None"
    "gf_Type ownerPointer = PointerType (NamedType [] ''User'')"
    by (simp_all add: ownerPointer_def parseProtobufTag_Nil)
  have ra: "?int = ''int64''" by code_simp
  have ro: "?user = ''User''" by code_simp
  have sc: "isBasicProtoType ''int64''" by code_simp
  have ms: "map msg_Name ?msgs = [''User'']" by code_simp
  then obtain m where m: "m \<in> set ?msgs" "msg_Name m = ''User''"
    by (cases ?msgs) auto
  note age = pointer_optional_iff_scalar
    [OF a, of DefaultOptions 1 "{}" "{}" DefaultOptions userStruct "{''Status''}"]
  note owner = pointer_optional_iff_scalar
    [OF o, of DefaultOptions 2 "{}" "{}" DefaultOptions userStruct "{''Status''}"]
  have age_type: "fld_Type ?age = ''int64''"
    using age [THEN conjunct1] by (simp only: ra)
  have age_opt: "fld_Optional ?age"
    using age [THEN conjunct2, THEN conjunct1] sc by (simp only: ra)
  have owner_type: "fld_Type ?owner = ''User''"
    using owner [THEN conjunct1] by (simp only: ro)
  have "?user = msg_Name m \<longrightarrow> \<not> fld_Optional ?owner"
    using owner [THEN conjunct2, THEN conjunct2] m(1) by (rule bspec)
  then have owner_opt: "\<not> fld_Optional ?owner"
    by (simp only: ro m(2) simp_thms)
  from a o ms age_type age_opt owner_type owner_opt show ?thesis by blast
qed

text \<open>
  C8 (as amended). The resolver maps slice-of-byte to \<open>bytes\<close> with the repeated flag
  not set, no import and no map parts, whatever the mapping table and the lookups, never
  to a repeated element type; and a struct field of that type that carries no wire tag
  accepted by \<open>parseProtobufTag\<close> is emitted with type \<open>bytes\<close>, not repeated and
  not optional.
\<close>

theorem byte_slice_is_bytes:
  "transformType tm (SliceType (BasicType ''byte'')) el tp = (''bytes'', [], False, False, [], []) \<and>
   (parseProtobufTag (gf_Tag f) = None \<and> gf_Type f = SliceType (BasicType ''byte'') \<longrightarrow>
      fld_Type (fst (transformField opts f num el tp)) = ''bytes'' \<and>
      \<not> fld_Repeated (fst (transformField opts f num el tp)) \<and>
      \<not> fld_Optional (fst (transformField opts f num el tp)) \<and>
      snd (transformField opts f num el tp) = [])"
  by (simp add: transformField_untagged isPointerType_def)

theorem byte_slice_is_bytes_witness:
  "parseProtobufTag (gf_Tag byteSliceField) = None \<and>
   gf_Type byteSliceField = SliceType (BasicType ''byte'') \<and>
   fld_Type (fst (transformField DefaultOptions byteSliceField 1 {} {})) = ''bytes'' \<and>
   \<not> fld_Repeated (fst (transformField DefaultOptions byteSliceField 1 {} {}))"
proof -
  have h: "parseProtobufTag (gf_Tag byteSliceField) = None \<and>
           gf_Type byteSliceField = SliceType (BasicType ''byte'')"
    by (simp add: byteSliceField_def parseProtobufTag_Nil)
  with byte_slice_is_bytes [where f = byteSliceField and opts = DefaultOptions and num = 1
      and el = "{}" and tp = "{}"]
  show ?thesis by blast
qed

text \<open>
  C8 as stated fails for a byte slice with an accepted wire tag: \<open>transformField\<close>
  returns the parsed tag before it resolves the type, so the field \<open>Data []byte\<close>
  tagged \<open>protobuf:"varint,2,rep,name=data"\<close> is emitted as \<open>repeated int64 data = 2\<close>.
\<close>

theorem byte_slice_tag_override:
  "gf_Type repeatedTagField = SliceType (BasicType ''byte'') \<and>
   transformField DefaultOptions repeatedTagField 1 {} {} =
     (\<lparr> fld_Name = ''data'', fld_Type = ''int64'', fld_Number = 2, fld_Repeated = True,
         fld_Optional = False, fld_MapKey = [], fld_MapValue = [], fld_Comments = [] \<rparr>, []) \<and>
   Messages (transformStruct DefaultOptions chunkStruct {}) =
     [ProtoMessage ''Chunk''
        [\<lparr> fld_Name = ''data'', fld_Type = ''int64'', fld_Number = 2, fld_Repeated = True,
            fld_Optional = False, fld_MapKey = [], fld_MapValue = [], fld_Comments = [] \<rparr>]
        [] [] []]"
  by code_simp

section \<open>Properties of enums\<close>

lemma positions_append:
  "positions i (xs @ ys) = positions i xs @ positions (i + int (length xs)) ys"
  by (induction xs arbitrary: i) (simp_all add: add.assoc)

lemma exportedPositions_append:
  "exportedPositions ex i (xs @ ys) =
   exportedPositions ex i xs @ exportedPositions ex (i + int (length xs)) ys"
  by (simp add: exportedPositions_def positions_append)

lemma exportedPositions_Cons:
  "exportedPositions ex i (n # ns) =
   (if ex n then [(n, i)] else []) @ exportedPositions ex (i + 1) ns"
  by (simp add: exportedPositions_def)

lemma exportedPositions_Nil: "exportedPositions ex i [] = []"
  by (simp add: exportedPositions_def)

lemma extractConsts_names_numbered:
  "fst (extractConsts_names ex names doc i vals) = i + int (length names) \<and>
   numbered (snd (extractConsts_names ex names doc i vals)) =
     numbered vals @ exportedPositions ex i names"
proof (induction names arbitrary: i vals)
  case Nil
  show ?case by (simp add: exportedPositions_Nil)
next
  case (Cons n ns)
  show ?case
    using Cons.IH [of "i + 1" vals]
      Cons.IH [of "i + 1" "vals @ [\<lparr> cv_Name = n, cv_Value = i, cv_Comments = doc \<rparr>]"]
    by (simp add: exportedPositions_Cons numbered_def)
qed

lemma extractConsts_loop_runs:
  assumes "t \<noteq> []"
    and "cur \<noteq> [] \<longrightarrow> i = int (length run)"
    and "cur = [] \<longrightarrow> run = []"
    and "numbered (groupValues groups t) =
           base @ (if cur = t then exportedPositions ex 0 run else [])"
  shows "numbered (groupValues (extractConsts_loop ex specs cur i groups) t) =
           base @ concat (map (\<lambda>r. exportedPositions ex 0 (snd r))
                            (filter (\<lambda>r. fst r = t) (declRuns specs cur run)))"
  using assms
proof (induction specs arbitrary: cur i groups run base)
  case Nil
  then show ?case by simp
next
  case (Cons sp specs)
  show ?case
  proof (cases sp)
    case OtherSpec
    then show ?thesis using Cons.IH [OF Cons.prems] by simp
  next
    case (ValueSpec ty names doc)
    let ?switch = "case ty of Ident n \<Rightarrow> cur \<noteq> n | _ \<Rightarrow> False"
    show ?thesis
    proof (cases ?switch)
      case True
      then obtain n where ty: "ty = Ident n" and ne: "cur \<noteq> n"
        by (cases ty) auto
      let ?base = "base @ (if cur = t then exportedPositions ex 0 run else [])"
      show ?thesis
      proof (cases "n = []")
        case True
        have "numbered (groupValues (extractConsts_loop ex specs n 0 groups) t) =
                ?base @ concat (map (\<lambda>r. exportedPositions ex 0 (snd r))
                            (filter (\<lambda>r. fst r = t) (declRuns specs n [])))"
          using Cons.prems True by (intro Cons.IH) auto
        with True ty ne ValueSpec show ?thesis by simp
      next
        case False
        define group where "group = (case groups n of
                            Some g \<Rightarrow> g
                          | None \<Rightarrow> \<lparr> cg_TypeName = n, cg_Values = [] \<rparr>)"
        obtain i'' vals where
          nm: "extractConsts_names ex names (extractComments doc) 0 (cg_Values group) = (i'', vals)"
          by (cases "extractConsts_names ex names (extractComments doc) 0 (cg_Values group)")
        define groups' where "groups' = groups(n \<mapsto> group\<lparr> cg_Values := vals \<rparr>)"
        have gv: "cg_Values group = groupValues groups n"
          by (simp add: group_def groupValues_def split: option.splits)
        from extractConsts_names_numbered [of ex names "extractComments doc" 0 "cg_Values group"] nm
        have i'': "i'' = int (length names)"
          and vals: "numbered vals = numbered (cg_Values group) @ exportedPositions ex 0 names"
          by simp_all
        have inv: "numbered (groupValues groups' t) =
                     ?base @ (if n = t then exportedPositions ex 0 names else [])"
        proof (cases "n = t")
          case True
          then have "groupValues groups' t = vals" by (simp add: groups'_def groupValues_def)
          with vals gv True Cons.prems(4) show ?thesis by simp
        next
          case False
          then have "groupValues groups' t = groupValues groups t"
            by (simp add: groups'_def groupValues_def)
          with False Cons.prems(4) show ?thesis by simp
        qed
        have "numbered (groupValues (extractConsts_loop ex specs n i'' groups') t) =
                ?base @ concat (map (\<lambda>r. exportedPositions ex 0 (snd r))
                            (filter (\<lambda>r. fst r = t) (declRuns specs n names)))"
          using Cons.prems(1) False i'' inv by (intro Cons.IH) auto
        with False ty ne ValueSpec nm show ?thesis
          by (simp add: group_def groups'_def)
      qed
    next
      case False
      then have same: "(case ty of
               Ident n \<Rightarrow> if cur \<noteq> n then (n, 0) else (cur, i)
             | _ \<Rightarrow> (cur, i)) = (cur, i)"
        by (cases ty) auto
      have runs: "declRuns (sp # specs) cur run =
                    declRuns specs cur (if cur = [] then [] else run @ names)"
        using False ValueSpec by (cases ty) auto
      show ?thesis
      proof (cases "cur = []")
        case True
        have step: "extractConsts_loop ex (sp # specs) cur i groups =
                      extractConsts_loop ex specs cur i groups"
          unfolding ValueSpec extractConsts_loop.simps same using True by simp
        have "numbered (groupValues (extractConsts_loop ex specs cur i groups) t) =
                base @ concat (map (\<lambda>r. exportedPositions ex 0 (snd r))
                            (filter (\<lambda>r. fst r = t) (declRuns specs cur [])))"
          using Cons.prems True by (intro Cons.IH) auto
        then show ?thesis unfolding step runs using True by simp
      next
        case False
        define group where "group = (case groups cur of
                            Some g \<Rightarrow> g
                          | None \<Rightarrow> \<lparr> cg_TypeName = cur, cg_Values = [] \<rparr>)"
        obtain i'' vals where
          nm: "extractConsts_names ex names (extractComments doc) i (cg_Values group) = (i'', vals)"
          by (cases "extractConsts_names ex names (extractComments doc) i (cg_Values group)")
        define groups' where "groups' = groups(cur \<mapsto> group\<lparr> cg_Values := vals \<rparr>)"
        have gv: "cg_Values group = groupValues groups cur"
          by (simp add: group_def groupValues_def split: option.splits)
        have i: "i = int (length run)" using Cons.prems(2) False by simp
        from extractConsts_names_numbered [of ex names "extractComments doc" i "cg_Values group"] nm
        have i'': "i'' = int (length (run @ names))"
          and vals: "numbered vals = numbered (cg_Values group) @ exportedPositions ex i names"
          using i by simp_all
        have inv: "numbered (groupValues groups' t) =
                     base @ (if cur = t then exportedPositions ex 0 (run @ names) else [])"
        proof (cases "cur = t")
          case True
          then have "groupValues groups' t = vals" by (simp add: groups'_def groupValues_def)
          with vals gv True Cons.prems(4) i show ?thesis
            by (simp add: exportedPositions_append)
        next
          case False
          then have "groupValues groups' t = groupValues groups t"
            by (simp add: groups'_def groupValues_def)
          with False Cons.prems(4) show ?thesis by simp
        qed
        have "numbered (groupValues (extractConsts_loop ex specs cur i'' groups') t) =
                base @ concat (map (\<lambda>r. exportedPositions ex 0 (snd r))
                            (filter (\<lambda>r. fst r = t) (declRuns specs cur (run @ names))))"
          using Cons.prems(1) False i'' inv by (intro Cons.IH) auto
        with False same ValueSpec nm runs show ?thesis
          by (simp add: group_def groups'_def)
      qed
    qed
  qed
qed

lemma extractConsts_runs:
  assumes "t \<noteq> []"
  shows "numbered (groupValues (extractConsts ex specs groups) t) =
           numbered (groupValues groups t) @
           concat (map (\<lambda>r. exportedPositions ex 0 (snd r))
                     (filter (\<lambda>r. fst r = t) (declRuns specs [] [])))"
  unfolding extractConsts_def
  using assms by (intro extractConsts_loop_runs) auto

lemma foldl_extractConsts_runs:
  assumes "t \<noteq> []"
  shows "numbered (groupValues (foldl (\<lambda>groups d. extractConsts ex d groups) groups decls) t) =
           numbered (groupValues groups t) @
           concat (map (\<lambda>r. exportedPositions ex 0 (snd r))
                     (filter (\<lambda>r. fst r = t) (concat (map (\<lambda>d. declRuns d [] []) decls))))"
proof (induction decls arbitrary: groups)
  case Nil
  show ?case by simp
next
  case (Cons d decls)
  show ?case
    by (simp add: Cons.IH extractConsts_runs [OF assms])
qed

lemma extractPackage_consts_runs:
  assumes "t \<noteq> []"
  shows "numbered (groupValues (extractPackage_consts ex decls) t) =
           concat (map (exportedPositions ex 0) (typeRuns t decls))"
proof -
  have "numbered (groupValues Map.empty t) = []"
    by (simp add: groupValues_def numbered_def)
  then show ?thesis
    unfolding extractPackage_consts_def typeRuns_def
    by (simp add: foldl_extractConsts_runs [OF assms] comp_def)
qed

lemma extractConsts_loop_empty_key:
  "extractConsts_loop ex specs cur i groups [] = groups []"
proof (induction specs arbitrary: cur i groups)
  case Nil
  show ?case by simp
next
  case (Cons sp specs)
  show ?case
  proof (cases sp)
    case OtherSpec
    then show ?thesis by (simp add: Cons.IH)
  next
    case (ValueSpec ty names doc)
    then show ?thesis
      by (simp add: Cons.IH Let_def split: prod.splits)
  qed
qed

lemma extractPackage_consts_empty_key: "extractPackage_consts ex decls [] = None"
proof -
  have "foldl (\<lambda>groups d. extractConsts ex d groups) groups decls [] = groups []" for groups
    by (induction decls arbitrary: groups) (simp_all add: extractConsts_def extractConsts_loop_empty_key)
  then show ?thesis by (simp add: extractPackage_consts_def)
qed

lemma hd_concat_find:
  "concat (map f rs) \<noteq> [] \<Longrightarrow>
   \<exists>r. find (\<lambda>r. f r \<noteq> []) rs = Some r \<and> hd (concat (map f rs)) = hd (f r)"
  by (induction rs) auto

lemma map_fst_positions: "map fst (positions i ns) = ns"
  by (induction ns arbitrary: i) simp_all

lemma exportedPositions_nonempty: "exportedPositions ex i r \<noteq> [] \<longleftrightarrow> list_ex ex r"
proof -
  have "exportedPositions ex i r \<noteq> [] \<longleftrightarrow> (\<exists>p\<in>set (positions i r). ex (fst p))"
    by (simp add: exportedPositions_def filter_empty_conv)
  also have "\<dots> \<longleftrightarrow> (\<exists>n\<in>set (map fst (positions i r)). ex n)"
    by simp
  finally show ?thesis by (simp add: map_fst_positions list_ex_iff)
qed

lemma hd_exportedPositions:
  "list_ex ex r \<Longrightarrow>
   snd (hd (exportedPositions ex i r)) = i + int (length (takeWhile (\<lambda>n. \<not> ex n) r))"
  by (induction r arbitrary: i) (auto simp: exportedPositions_Cons)

lemma transformEnums_member:
  "e \<in> set (Enums (transformEnums pkg el)) \<Longrightarrow> \<exists>cg\<in>set (Consts pkg). e = transformEnum cg"
  by (auto simp: transformEnums_def fragment_def)

lemma transformEnum_first:
  "cg_Values cg \<noteq> [] \<Longrightarrow>
   ev_Number (hd (enum_Values (transformEnum cg))) = cv_Value (hd (cg_Values cg))"
  by (cases "cg_Values cg") (simp_all add: transformEnum_def)

text \<open>
  C4 (as amended). The code has no numbering override: a constant's number is the counter
  of \<open>extractConsts\<close>, which every name advances, exported or not. For every emitted
  enum with a value, take the first run of its backing type that holds an exported
  constant (a run being the constants from a value spec that changes the current type,
  where the counter restarts at 0, up to the next change of type or the end of the
  declaration). The first emitted value is numbered by the count of constants that are
  not exported ahead of the first exported one in that run. So it is numbered 0 exactly
  when the run starts with an exported constant, and in particular whenever the first
  constant declared with the backing type is exported.
\<close>

theorem first_enum_value_number:
  assumes "\<forall>cg\<in>set (Consts pkg). extractPackage_consts ex decls (cg_TypeName cg) = Some cg"
    and "e \<in> set (Enums (transformEnums pkg el))"
    and "enum_Values e \<noteq> []"
  shows "\<exists>r. find (list_ex ex) (typeRuns (enum_Name e) decls) = Some r \<and>
             ev_Number (hd (enum_Values e)) = int (length (takeWhile (\<lambda>n. \<not> ex n) r)) \<and>
             (ev_Number (hd (enum_Values e)) = 0 \<longleftrightarrow> ex (hd r)) \<and>
             (\<forall>r0 rs. typeRuns (enum_Name e) decls = r0 # rs \<and> r0 \<noteq> [] \<and> ex (hd r0) \<longrightarrow>
                ev_Number (hd (enum_Values e)) = 0)"
proof -
  from transformEnums_member [OF assms(2)] obtain cg
    where cg: "cg \<in> set (Consts pkg)" "e = transformEnum cg" by blast
  define t where "t = cg_TypeName cg"
  from cg(2) assms(3) have name: "enum_Name e = t" and ne: "cg_Values cg \<noteq> []"
    by (simp_all add: transformEnum_def t_def)
  from assms(1) cg(1) have grp: "extractPackage_consts ex decls t = Some cg"
    by (auto simp: t_def)
  then have t: "t \<noteq> []"
    using extractPackage_consts_empty_key [of ex decls] by auto
  from grp have "groupValues (extractPackage_consts ex decls) t = cg_Values cg"
    by (simp add: groupValues_def)
  with extractPackage_consts_runs [OF t, of ex decls]
  have vals: "numbered (cg_Values cg) = concat (map (exportedPositions ex 0) (typeRuns t decls))"
    by simp
  have "numbered (cg_Values cg) \<noteq> []"
    using ne by (simp add: numbered_def)
  then have "concat (map (exportedPositions ex 0) (typeRuns t decls)) \<noteq> []"
    unfolding vals .
  from hd_concat_find [OF this] obtain r
    where r: "find (\<lambda>r. exportedPositions ex 0 r \<noteq> []) (typeRuns t decls) = Some r"
      and hd: "hd (concat (map (exportedPositions ex 0) (typeRuns t decls))) =
               hd (exportedPositions ex 0 r)"
    by blast
  have f: "find (list_ex ex) (typeRuns t decls) = Some r"
    using r by (simp add: exportedPositions_nonempty cong: find_cong)
  then have has: "list_ex ex r"
    by (auto simp: find_Some_iff)
  have "cv_Value (hd (cg_Values cg)) = snd (hd (numbered (cg_Values cg)))"
    using ne by (cases "cg_Values cg") (simp_all add: numbered_def)
  also have "\<dots> = snd (hd (exportedPositions ex 0 r))"
    by (simp add: vals hd)
  also have "\<dots> = int (length (takeWhile (\<lambda>n. \<not> ex n) r))"
    using hd_exportedPositions [OF has, of 0] by simp
  finally have num: "ev_Number (hd (enum_Values e)) = int (length (takeWhile (\<lambda>n. \<not> ex n) r))"
    using transformEnum_first [OF ne] cg(2) by simp
  have "r \<noteq> []" using has by auto
  then have zero: "length (takeWhile (\<lambda>n. \<not> ex n) r) = 0 \<longleftrightarrow> ex (hd r)"
    by (cases r) auto
  have first: "ev_Number (hd (enum_Values e)) = 0"
    if "typeRuns t decls = r0 # rs" "r0 \<noteq> []" "ex (hd r0)" for r0 rs
  proof -
    from that have "list_ex ex r0" by (cases r0) auto
    with that(1) f have "r = r0" by simp
    with that(3) num zero show ?thesis by simp
  qed
  from num zero f first show ?thesis unfolding name by auto
qed

text \<open>
  The \<open>Status\<close> block of the example: its one run starts with the exported
  \<open>StatusUnknown\<close> and the enum starts at 0. So does the enum of a block with a
  constant that is not exported after the first one, next to a declaration of an untyped
  constant that is not exported: the values are 0 and 2.
\<close>

theorem first_enum_value_number_witness:
  "extractPackage_consts IsExported [statusBlock] ''Status'' = Some statusGroup \<and>
   Enums (transformEnums modelsPkg (buildEnumLookup modelsPkg)) = [transformEnum statusGroup] \<and>
   find (list_ex IsExported) (typeRuns ''Status'' [statusBlock]) =
     Some [''StatusUnknown'', ''StatusActive'', ''StatusInactive''] \<and>
   ev_Number (hd (enum_Values (transformEnum statusGroup))) = 0 \<and>
   extractPackage_consts IsExported [hiddenLaterBlock, retriesBlock] ''Status'' =
     Some hiddenLaterGroup \<and>
   Enums (transformEnums hiddenLaterPkg (buildEnumLookup hiddenLaterPkg)) =
     [transformEnum hiddenLaterGroup] \<and>
   find (list_ex IsExported) (typeRuns ''Status'' [hiddenLaterBlock, retriesBlock]) =
     Some [''StatusUnknown'', ''statusInternal'', ''StatusActive''] \<and>
   map ev_Number (enum_Values (transformEnum hiddenLaterGroup)) = [0, 2] \<and>
   ev_Number (hd (enum_Values (transformEnum hiddenLaterGroup))) = 0"
proof -
  have g1: "extractPackage_consts IsExported [statusBlock] ''Status'' = Some statusGroup"
    by code_simp
  have c1: "\<forall>cg\<in>set (Consts modelsPkg).
      extractPackage_consts IsExported [statusBlock] (cg_TypeName cg) = Some cg"
    using g1 by (simp add: modelsPkg_def statusGroup_def)
  have e1: "Enums (transformEnums modelsPkg (buildEnumLookup modelsPkg)) = [transformEnum statusGroup]"
    by code_simp
  then have m1: "transformEnum statusGroup \<in> set (Enums (transformEnums modelsPkg (buildEnumLookup modelsPkg)))"
    by simp
  have v1: "enum_Values (transformEnum statusGroup) \<noteq> []"
    by (simp add: transformEnum_def statusGroup_def)
  have n1: "enum_Name (transformEnum statusGroup) = ''Status''"
    by (simp add: transformEnum_def statusGroup_def)
  have f1: "find (list_ex IsExported) (typeRuns ''Status'' [statusBlock]) =
     Some [''StatusUnknown'', ''StatusActive'', ''StatusInactive'']"
    by code_simp
  from first_enum_value_number [OF c1 m1 v1] obtain r1
    where "find (list_ex IsExported) (typeRuns ''Status'' [statusBlock]) = Some r1"
      and "ev_Number (hd (enum_Values (transformEnum statusGroup))) = 0 \<longleftrightarrow> IsExported (hd r1)"
    unfolding n1 by blast
  with f1 have "ev_Number (hd (enum_Values (transformEnum statusGroup))) = 0 \<longleftrightarrow>
      IsExported ''StatusUnknown''"
    by simp
  moreover have "IsExported ''StatusUnknown''" by code_simp
  ultimately have z1: "ev_Number (hd (enum_Values (transformEnum statusGroup))) = 0"
    by simp
  have g2: "extractPackage_consts IsExported [hiddenLaterBlock, retriesBlock] ''Status'' =
     Some hiddenLaterGroup"
    by code_simp
  have c2: "\<forall>cg\<in>set (Consts hiddenLaterPkg).
      extractPackage_consts IsExported [hiddenLaterBlock, retriesBlock] (cg_TypeName cg) = Some cg"
    using g2 by (simp add: hiddenLaterPkg_def hiddenLaterGroup_def)
  have e2: "Enums (transformEnums hiddenLaterPkg (buildEnumLookup hiddenLaterPkg)) =
     [transformEnum hiddenLaterGroup]"
    by code_simp
  then have m2: "transformEnum hiddenLaterGroup \<in>
      set (Enums (transformEnums hiddenLaterPkg (buildEnumLookup hiddenLaterPkg)))"
    by simp
  have v2: "enum_Values (transformEnum hiddenLaterGroup) \<noteq> []"
    by (simp add: transformEnum_def hiddenLaterGroup_def)
  have n2: "enum_Name (transformEnum hiddenLaterGroup) = ''Status''"
    by (simp add: transformEnum_def hiddenLaterGroup_def)
  have f2: "find (list_ex IsExported) (typeRuns ''Status'' [hiddenLaterBlock, retriesBlock]) =
     Some [''StatusUnknown'', ''statusInternal'', ''StatusActive'']"
    by code_simp
  from first_enum_value_number [OF c2 m2 v2] obtain r2
    where "find (list_ex IsExported) (typeRuns ''Status'' [hiddenLaterBlock, retriesBlock]) = Some r2"
      and "ev_Number (hd (enum_Values (transformEnum hiddenLaterGroup))) = 0 \<longleftrightarrow> IsExported (hd r2)"
    unfolding n2 by blast
  with f2 have "ev_Number (hd (enum_Values (transformEnum hiddenLaterGroup))) = 0 \<longleftrightarrow>
      IsExported ''StatusUnknown''"
    by simp
  moreover have "IsExported ''StatusUnknown''" by code_simp
  ultimately have z2: "ev_Number (hd (enum_Values (transformEnum hiddenLaterGroup))) = 0"
    by simp
  have l2: "map ev_Number (enum_Values (transformEnum hiddenLaterGroup)) = [0, 2]"
    by (simp add: transformEnum_def hiddenLaterGroup_def)
  from g1 e1 f1 z1 g2 e2 f2 l2 z2 show ?thesis by blast
qed

text \<open>
  C4 as stated fails when the run starts with a constant that is not exported: it takes
  the number 0 without being emitted, and the first emitted value of the enum is 1.
\<close>

theorem first_enum_value_one:
  "extractPackage_consts IsExported [hiddenFirstBlock] ''Status'' = Some hiddenFirstGroup \<and>
   Consts hiddenFirstPkg = [hiddenFirstGroup] \<and>
   Enums (transformEnums hiddenFirstPkg (buildEnumLookup hiddenFirstPkg)) =
     [\<lparr> enum_Name = ''Status'',
        enum_Values = [\<lparr> ev_Name = ''STATUS_ACTIVE'', ev_Number = 1, ev_Comments = [] \<rparr>,
                       \<lparr> ev_Name = ''STATUS_INACTIVE'', ev_Number = 2, ev_Comments = [] \<rparr>],
        enum_Comments = [] \<rparr>]"
  by code_simp

section \<open>Properties of services\<close>

text \<open>
  C7. The method \<open>GetUser(ctx context.Context, id string) (*User, error)\<close> of a service
  interface: the context parameter is dropped and the request message
  \<open>GetUserRequest\<close> is made with the single field \<open>id\<close>, numbered 1; the error
  result is dropped and the remaining pointer to the named type \<open>User\<close> is unwrapped
  and used as the output type, with no response message. The interface's fragment holds
  the service with the one RPC \<open>GetUser(GetUserRequest) returns (User)\<close> and the
  request message as its only message.
\<close>

theorem GetUser_scenario:
  "transformMethod DefaultOptions getUser ''UserService'' =
     (\<lparr> rpc_Name = ''GetUser'', rpc_InputType = ''GetUserRequest'', rpc_OutputType = ''User'',
         rpc_ClientStreaming = False, rpc_ServerStreaming = False, rpc_Comments = [] \<rparr>,
      Some (ProtoMessage ''GetUserRequest''
              [\<lparr> fld_Name = ''id'', fld_Type = ''string'', fld_Number = 1, fld_Repeated = False,
                  fld_Optional = False, fld_MapKey = [], fld_MapValue = [], fld_Comments = [] \<rparr>]
              [] [] []),
      None, []) \<and>
   Services (transformInterface DefaultOptions userService) =
     [\<lparr> svc_Name = ''UserService'',
        svc_Methods =
          [\<lparr> rpc_Name = ''GetUser'', rpc_InputType = ''GetUserRequest'', rpc_OutputType = ''User'',
              rpc_ClientStreaming = False, rpc_ServerStreaming = False, rpc_Comments = [] \<rparr>],
        svc_Comments = [''UserService defines user operations.''] \<rparr>] \<and>
   map msg_Name (Messages (transformInterface DefaultOptions userService)) = [''GetUserRequest''] \<and>
   Imports (transformInterface DefaultOptions userService) = []"
proof (intro conjI)
  show "transformMethod DefaultOptions getUser ''UserService'' =
     (\<lparr> rpc_Name = ''GetUser'', rpc_InputType = ''GetUserRequest'', rpc_OutputType = ''User'',
         rpc_ClientStreaming = False, rpc_ServerStreaming = False, rpc_Comments = [] \<rparr>,
      Some (ProtoMessage ''GetUserRequest''
              [\<lparr> fld_Name = ''id'', fld_Type = ''string'', fld_Number = 1, fld_Repeated = False,
                  fld_Optional = False, fld_MapKey = [], fld_MapValue = [], fld_Comments = [] \<rparr>]
              [] [] []),
      None, [])"
    by code_simp
  show "Services (transformInterface DefaultOptions userService) =
     [\<lparr> svc_Name = ''UserService'',
        svc_Methods =
          [\<lparr> rpc_Name = ''GetUser'', rpc_InputType = ''GetUserRequest'', rpc_OutputType = ''User'',
              rpc_ClientStreaming = False, rpc_ServerStreaming = False, rpc_Comments = [] \<rparr>],
        svc_Comments = [''UserService defines user operations.''] \<rparr>]"
    by code_simp
  show "map msg_Name (Messages (transformInterface DefaultOptions userService)) = [''GetUserRequest'']"
    by code_simp
  show "Imports (transformInterface DefaultOptions userService) = []"
    by code_simp
qed

subsection \<open>Imports of the envelope messages\<close>

lemma methodInput_imports:
  "set (snd (snd (methodInput opts name params))) \<subseteq> {''google/protobuf/empty.proto''}"
  by (simp add: methodInput_def Let_def split: GoType.splits)

lemma methodOutput_imports:
  "set (snd (snd (methodOutput opts name results))) \<subseteq> {''google/protobuf/empty.proto''}"
  by (simp add: methodOutput_def Let_def split: GoType.splits)

lemma transformMethod_imports:
  "set (snd (snd (snd (transformMethod opts m serviceName)))) \<subseteq> {''google/protobuf/empty.proto''}"
proof -
  obtain it rq i1 where a: "methodInput opts (gm_Name m) (Filter (gm_Params m) (\<lambda>p. \<not> isContext p)) = (it, rq, i1)"
    by (cases "methodInput opts (gm_Name m) (Filter (gm_Params m) (\<lambda>p. \<not> isContext p))")
  obtain ot rs i2 where b: "methodOutput opts (gm_Name m) (Filter (gm_Results m) (\<lambda>p. \<not> isError p)) = (ot, rs, i2)"
    by (cases "methodOutput opts (gm_Name m) (Filter (gm_Results m) (\<lambda>p. \<not> isError p))")
  from methodInput_imports [of opts "gm_Name m" "Filter (gm_Params m) (\<lambda>p. \<not> isContext p)"] a
  have "set i1 \<subseteq> {''google/protobuf/empty.proto''}" by simp
  moreover
  from methodOutput_imports [of opts "gm_Name m" "Filter (gm_Results m) (\<lambda>p. \<not> isError p)"] b
  have "set i2 \<subseteq> {''google/protobuf/empty.proto''}" by simp
  ultimately show ?thesis by (simp add: transformMethod_def Let_def a b)
qed

lemma transformInterface_loop_imports:
  "set imps \<subseteq> {''google/protobuf/empty.proto''} \<Longrightarrow>
   set (snd (snd (transformInterface_loop opts sn ms methods messages imps)))
     \<subseteq> {''google/protobuf/empty.proto''}"
proof (induction ms arbitrary: methods messages imps)
  case Nil
  then show ?case by simp
next
  case (Cons m ms)
  obtain rpc rq rs mi where tm: "transformMethod opts m sn = (rpc, rq, rs, mi)"
    by (cases "transformMethod opts m sn")
  from transformMethod_imports [of opts m sn] tm
  have "set mi \<subseteq> {''google/protobuf/empty.proto''}" by simp
  with Cons.prems have "set (imps @ mi) \<subseteq> {''google/protobuf/empty.proto''}" by simp
  from Cons.IH [OF this] tm show ?case by simp
qed

lemma set_Unique: "set (Unique xs) = set xs"
  by (simp add: Unique_def set_Unique_loop)

lemma transformInterface_imports:
  "set (Imports (transformInterface opts i)) \<subseteq> {''google/protobuf/empty.proto''}"
proof (cases "tag_of (gi_Tags i) ''go2proto:service'' \<noteq> ''true'' \<and> tag_of (gi_Tags i) ''go2proto'' \<noteq> ''service''")
  case True
  then show ?thesis by (simp add: transformInterface_def Empty_ProtoMonoid)
next
  case False
  obtain methods messages imps
    where l: "transformInterface_loop opts (gi_Name i) (gi_Methods i) [] [] [] = (methods, messages, imps)"
    by (cases "transformInterface_loop opts (gi_Name i) (gi_Methods i) [] [] []")
  from transformInterface_loop_imports [of "[]" opts "gi_Name i" "gi_Methods i" "[]" "[]"] l
  have "set imps \<subseteq> {''google/protobuf/empty.proto''}" by simp
  with False l show ?thesis
    by (auto simp: transformInterface_def fragment_def set_Unique)
qed

lemma envelopeField_type:
  "fld_Type (envelopeField opts fallback (i, p)) =
   fst (transformType (TypeMappings opts) (gp_Type p) {} {})"
  by (simp add: envelopeField_def Let_def split: prod.splits)

lemma map_envelopeField_type:
  "map fld_Type (map (envelopeField opts fallback) (enumerate n ps)) =
   map (\<lambda>p. fst (transformType (TypeMappings opts) (gp_Type p) {} {})) ps"
  by (induction ps arbitrary: n) (simp_all add: envelopeField_type)

text \<open>
  C10. The fields of a synthesized request or response message get their types from the
  resolver run with empty enum and generic-parameter lookups, and the imports the
  resolver returns for them are dropped: the imports of a method, and of the fragment of
  a whole interface, never hold anything but the import of the empty-envelope type. For
  the method \<open>ListSince(ctx, since time.Time, limit int) ([]User, error)\<close> the request
  field \<open>since\<close> has the type \<open>google.protobuf.Timestamp\<close>, whose import the resolver
  reports, and the fragment has no import at all.
\<close>

theorem envelope_imports_dropped:
  "map fld_Type (msg_Fields (generateRequestMessage opts name params)) =
     map (\<lambda>p. fst (transformType (TypeMappings opts) (gp_Type p) {} {})) params \<and>
   map fld_Type (msg_Fields (generateResponseMessage opts name results)) =
     map (\<lambda>p. fst (transformType (TypeMappings opts) (gp_Type p) {} {})) results \<and>
   set (snd (snd (snd (transformMethod opts m serviceName)))) \<subseteq> {''google/protobuf/empty.proto''} \<and>
   set (Imports (transformInterface opts i)) \<subseteq> {''google/protobuf/empty.proto''} \<and>
   fst (snd (transformType (TypeMappings DefaultOptions) (NamedType ''time'' ''Time'') {} {})) =
     [''google/protobuf/timestamp.proto''] \<and>
   map (\<lambda>m. (msg_Name m, map (\<lambda>f. (fld_Name f, fld_Type f, fld_Number f)) (msg_Fields m)))
       (Messages (transformInterface DefaultOptions auditService)) =
     [(''ListSinceRequest'',
         [(''since'', ''google.protobuf.Timestamp'', 1), (''limit'', ''int64'', 2)]),
      (''ListSinceResponse'', [(''result1'', ''User'', 1)])] \<and>
   Imports (transformInterface DefaultOptions auditService) = []"
proof (intro conjI)
  show "map fld_Type (msg_Fields (generateRequestMessage opts name params)) =
     map (\<lambda>p. fst (transformType (TypeMappings opts) (gp_Type p) {} {})) params"
    by (simp only: generateRequestMessage_def ProtoMessage.sel map_envelopeField_type)
  show "map fld_Type (msg_Fields (generateResponseMessage opts name results)) =
     map (\<lambda>p. fst (transformType (TypeMappings opts) (gp_Type p) {} {})) results"
    by (simp only: generateResponseMessage_def ProtoMessage.sel map_envelopeField_type)
  show "set (snd (snd (snd (transformMethod opts m serviceName)))) \<subseteq> {''google/protobuf/empty.proto''}"
    by (rule transformMethod_imports)
  show "set (Imports (transformInterface opts i)) \<subseteq> {''google/protobuf/empty.proto''}"
    by (rule transformInterface_imports)
  show "fst (snd (transformType (TypeMappings DefaultOptions) (NamedType ''time'' ''Time'') {} {})) =
     [''google/protobuf/timestamp.proto'']"
    by code_simp
  show "map (\<lambda>m. (msg_Name m, map (\<lambda>f. (fld_Name f, fld_Type f, fld_Number f)) (msg_Fields m)))
       (Messages (transformInterface DefaultOptions auditService)) =
     [(''ListSinceRequest'',
         [(''since'', ''google.protobuf.Timestamp'', 1), (''limit'', ''int64'', 2)]),
      (''ListSinceResponse'', [(''result1'', ''User'', 1)])]"
    by code_simp
  show "Imports (transformInterface DefaultOptions auditService) = []"
    by code_simp
qed

section \<open>Properties of runs\<close>

lemma range_assign_map_of: "range_assign opts es = opts ++ map_of (rev es)"
  unfolding range_assign_def
  by (induction es arbitrary: opts) (auto simp: map_add_upd_left fun_eq_iff map_add_def split: option.splits)

lemma map_of_rev_distinct: "distinct (map fst es) \<Longrightarrow> map_of (rev es) = map_of es"
proof (induction es)
  case Nil
  show ?case by simp
next
  case (Cons e es)
  obtain k v where e: "e = (k, v)" by (cases e)
  from Cons.prems e have "k \<notin> dom (map_of es)" by (simp add: dom_map_of_conv_image_fst)
  then have "[k \<mapsto> v] ++ map_of es = map_of es ++ [k \<mapsto> v]"
    by (intro map_add_comm) auto
  with Cons e show ?case by (simp add: map_of_append)
qed

lemma range_assign_visits: "visits m es \<Longrightarrow> range_assign opts es = opts ++ m"
  by (simp add: visits_def range_assign_map_of map_of_rev_distinct)

lemma Append_in_visits:
  "visits (Options a) ea \<Longrightarrow> visits (Options b) eb \<Longrightarrow> Append_in ea eb a b = Append ProtoMonoid a b"
  by (simp add: Append_in_def ProtoMonoid_def range_assign_visits)

lemma Append_run_deterministic: "Append_run a b r \<Longrightarrow> r = Append ProtoMonoid a b"
  by (induction rule: Append_run.induct) (simp add: Append_in_visits)

lemma visits_exists:
  assumes "finite (dom m)"
  shows "\<exists>es. visits m es"
proof -
  from finite_distinct_list [OF assms] obtain ks where ks: "set ks = dom m" "distinct ks"
    by blast
  define es where "es = map (\<lambda>k. (k, the (m k))) ks"
  have keys: "map fst es = ks" by (simp add: es_def comp_def)
  have eq: "map_of es = (Some \<circ> (\<lambda>k. the (m k))) |` dom m"
    unfolding es_def ks(1) [symmetric] by (rule map_of_map_restrict)
  have "map_of es x = m x" for x
    unfolding eq by (cases "m x") (simp_all add: restrict_map_def domIff)
  then have "map_of es = m" by (rule ext)
  then have "visits m es" unfolding visits_def keys using ks(2) by simp
  then show ?thesis ..
qed

lemma Append_run_total: "finite (dom (Options a)) \<Longrightarrow> finite (dom (Options b)) \<Longrightarrow> Append_run a b (Append ProtoMonoid a b)"
proof -
  assume "finite (dom (Options a))" "finite (dom (Options b))"
  then obtain ea eb where v: "visits (Options a) ea" "visits (Options b) eb"
    using visits_exists by blast
  then have "Append_run a b (Append_in ea eb a b)" by (rule Append_run.intros)
  with v show ?thesis by (simp add: Append_in_visits)
qed

lemma FoldMap_run_deterministic:
  assumes "FoldMap_run F acc xs r" and "\<And>x y. x \<in> set xs \<Longrightarrow> F x y \<Longrightarrow> y = f x"
  shows "r = foldl (\<lambda>result x. Append ProtoMonoid result (f x)) acc xs"
  using assms
proof (induction rule: FoldMap_run.induct)
  case (1 result)
  show ?case by simp
next
  case (2 x y result result' xs r)
  have "y = f x" using 2 by simp
  moreover have "result' = Append ProtoMonoid result y"
    using 2 by (simp add: Append_run_deterministic)
  ultimately show ?case using 2 by simp
qed

lemma finiteOptions_Append:
  "finiteOptions a \<Longrightarrow> finiteOptions b \<Longrightarrow> finiteOptions (Append ProtoMonoid a b)"
  by (simp add: finiteOptions_def ProtoMonoid_def)

lemma finiteOptions_foldl:
  "finiteOptions acc \<Longrightarrow> (\<And>x. x \<in> set xs \<Longrightarrow> finiteOptions (f x)) \<Longrightarrow>
   finiteOptions (foldl (\<lambda>result x. Append ProtoMonoid result (f x)) acc xs)"
  by (induction xs arbitrary: acc) (simp_all add: finiteOptions_Append)

lemma FoldMap_run_total:
  assumes "finiteOptions acc" and "\<And>x. x \<in> set xs \<Longrightarrow> F x (f x) \<and> finiteOptions (f x)"
  shows "FoldMap_run F acc xs (foldl (\<lambda>result x. Append ProtoMonoid result (f x)) acc xs)"
  using assms
proof (induction xs arbitrary: acc)
  case Nil
  show ?case by (simp add: FoldMap_run.intros)
next
  case (Cons x xs)
  have fx: "F x (f x)" "finiteOptions (f x)" using Cons.prems(2) by simp_all
  have step: "Append_run acc (f x) (Append ProtoMonoid acc (f x))"
    using Cons.prems(1) fx(2) by (simp add: Append_run_total finiteOptions_def)
  have "FoldMap_run F (Append ProtoMonoid acc (f x)) xs
          (foldl (\<lambda>result x. Append ProtoMonoid result (f x)) (Append ProtoMonoid acc (f x)) xs)"
    using Cons.prems fx by (intro Cons.IH finiteOptions_Append) simp_all
  with fx(1) step show ?case by (auto intro: FoldMap_run.intros)
qed

lemma finiteOptions_Empty: "finiteOptions (Empty ProtoMonoid)"
  by (simp add: finiteOptions_def ProtoMonoid_def)

lemma finiteOptions_transformStruct: "finiteOptions (transformStruct opts s el)"
  by (simp add: finiteOptions_def transformStruct_def ProtoMonoid_def fragment_def split: prod.splits)

lemma finiteOptions_transformInterface: "finiteOptions (transformInterface opts i)"
  by (simp add: finiteOptions_def transformInterface_def ProtoMonoid_def fragment_def split: prod.splits)

lemma finiteOptions_transformEnums: "finiteOptions (transformEnums pkg el)"
  by (simp add: finiteOptions_def transformEnums_def fragment_def)

lemma finiteOptions_packageBase: "finiteOptions (packageBase opts pkg)"
  by (simp add: finiteOptions_def packageBase_def fragment_def Let_def)

lemma finiteOptions_FoldMap:
  "(\<And>x. x \<in> set xs \<Longrightarrow> finiteOptions (f x)) \<Longrightarrow> finiteOptions (FoldMap xs ProtoMonoid f)"
  unfolding FoldMap_def by (intro finiteOptions_foldl finiteOptions_Empty)

lemma finiteOptions_Concat:
  "(\<And>x. x \<in> set xs \<Longrightarrow> finiteOptions x) \<Longrightarrow> finiteOptions (Concat ProtoMonoid xs)"
  unfolding Concat_def by (intro finiteOptions_foldl finiteOptions_Empty)

lemma finiteOptions_transformPackage: "finiteOptions (transformPackage opts pkg)"
  unfolding transformPackage_def Let_def
  by (intro finiteOptions_Concat)
     (auto simp: finiteOptions_packageBase finiteOptions_transformEnums
        intro!: finiteOptions_FoldMap finiteOptions_transformStruct finiteOptions_transformInterface)

lemma transformPackage_run_deterministic:
  assumes "transformPackage_run opts pkg r"
  shows "r = transformPackage opts pkg"
proof -
  from assms obtain messages services where
    m: "FoldMap_run (\<lambda>s y. y = transformStruct opts s (buildEnumLookup pkg))
          (Empty ProtoMonoid) (Structs pkg) messages" and
    s: "FoldMap_run (\<lambda>i y. y = transformInterface opts i)
          (Empty ProtoMonoid) (Interfaces pkg) services" and
    c: "Concat_run [packageBase opts pkg, transformEnums pkg (buildEnumLookup pkg),
                    messages, services] r"
    by (auto simp: transformPackage_run_def)
  have "messages = FoldMap (Structs pkg) ProtoMonoid (\<lambda>s. transformStruct opts s (buildEnumLookup pkg))"
    unfolding FoldMap_def by (rule FoldMap_run_deterministic [OF m]) simp
  moreover have "services = FoldMap (Interfaces pkg) ProtoMonoid (\<lambda>i. transformInterface opts i)"
    unfolding FoldMap_def by (rule FoldMap_run_deterministic [OF s]) simp
  moreover have "r = Concat ProtoMonoid [packageBase opts pkg, transformEnums pkg (buildEnumLookup pkg),
                    messages, services]"
    unfolding Concat_def
    by (rule FoldMap_run_deterministic [OF c [unfolded Concat_run_def], where f = "\<lambda>x. x"]) simp
  ultimately show ?thesis by (simp add: transformPackage_def Let_def)
qed

lemma transformPackage_run_total: "transformPackage_run opts pkg (transformPackage opts pkg)"
proof -
  let ?el = "buildEnumLookup pkg"
  let ?messages = "FoldMap (Structs pkg) ProtoMonoid (\<lambda>s. transformStruct opts s ?el)"
  let ?services = "FoldMap (Interfaces pkg) ProtoMonoid (\<lambda>i. transformInterface opts i)"
  have m: "FoldMap_run (\<lambda>s y. y = transformStruct opts s ?el) (Empty ProtoMonoid) (Structs pkg) ?messages"
    unfolding FoldMap_def
    by (intro FoldMap_run_total finiteOptions_Empty) (simp add: finiteOptions_transformStruct)
  have s: "FoldMap_run (\<lambda>i y. y = transformInterface opts i) (Empty ProtoMonoid) (Interfaces pkg) ?services"
    unfolding FoldMap_def
    by (intro FoldMap_run_total finiteOptions_Empty) (simp add: finiteOptions_transformInterface)
  have "FoldMap_run (\<lambda>x y. y = x) (Empty ProtoMonoid)
          [packageBase opts pkg, transformEnums pkg ?el, ?messages, ?services]
          (foldl (\<lambda>result x. Append ProtoMonoid result x) (Empty ProtoMonoid)
             [packageBase opts pkg, transformEnums pkg ?el, ?messages, ?services])"
    by (intro FoldMap_run_total [where f = "\<lambda>x. x"] finiteOptions_Empty)
       (auto simp: finiteOptions_packageBase finiteOptions_transformEnums
          intro!: finiteOptions_FoldMap finiteOptions_transformStruct finiteOptions_transformInterface)
  then have c: "Concat_run [packageBase opts pkg, transformEnums pkg ?el, ?messages, ?services]
                  (transformPackage opts pkg)"
    by (simp add: Concat_run_def transformPackage_def Concat_def Let_def)
  from m s c show ?thesis unfolding transformPackage_run_def by blast
qed

lemma Transform_run_deterministic: "Transform_run opts pkgs r \<Longrightarrow> r = Transform opts pkgs"
  unfolding Transform_run_def Transform_def FoldMap_def
  by (erule FoldMap_run_deterministic) (rule transformPackage_run_deterministic)

lemma Transform_run_total: "Transform_run opts pkgs (Transform opts pkgs)"
  unfolding Transform_run_def Transform_def FoldMap_def
  by (intro FoldMap_run_total finiteOptions_Empty)
     (simp add: transformPackage_run_total finiteOptions_transformPackage)

text \<open>
  C9. The engine is deterministic. For every list of packages and fixed options a run of
  \<open>Transform\<close> exists, and whatever order the runtime picks each time a map is
  visited, any two runs end in the same IR: equal syntax, package and options, the same
  import list, and the same ordered lists of enums, messages and services, field numbers
  included (so in particular the same IR up to the order of the imports).
\<close>

theorem Transform_deterministic:
  "(\<exists>r. Transform_run opts pkgs r) \<and>
   (\<forall>r1 r2. Transform_run opts pkgs r1 \<longrightarrow> Transform_run opts pkgs r2 \<longrightarrow> r1 = r2)"
  using Transform_run_total Transform_run_deterministic by blast

text \<open>Two packages in one file: the run that exists ends in the value of
  \<open>Transform\<close>, whose messages are \<open>User\<close> and \<open>GetUserRequest\<close>.\<close>

theorem Transform_deterministic_witness:
  "Transform_run DefaultOptions [modelsPkg, billingPkg]
     (Transform DefaultOptions [modelsPkg, billingPkg]) \<and>
   (\<exists>r. Transform_run DefaultOptions [modelsPkg, billingPkg] r \<and>
        r = Transform DefaultOptions [modelsPkg, billingPkg] \<and>
        map msg_Name (Messages r) = [''User'', ''GetUserRequest''])"
proof -
  let ?T = "Transform DefaultOptions [modelsPkg, billingPkg]"
  have t: "Transform_run DefaultOptions [modelsPkg, billingPkg] ?T"
    by (rule Transform_run_total)
  from Transform_deterministic [of DefaultOptions "[modelsPkg, billingPkg]"]
  obtain r where r: "Transform_run DefaultOptions [modelsPkg, billingPkg] r"
    and same: "\<forall>r1 r2. Transform_run DefaultOptions [modelsPkg, billingPkg] r1 \<longrightarrow>
                 Transform_run DefaultOptions [modelsPkg, billingPkg] r2 \<longrightarrow> r1 = r2"
    by blast
  from same r t have eq: "r = ?T" by blast
  have "Messages ?T =
          Messages (transformStruct DefaultOptions userStruct (buildEnumLookup modelsPkg)) @
          Messages (transformInterface DefaultOptions userService)"
    by (simp add: Transform_def FoldMap_def transformPackage_def Concat_def Append_ProtoMonoid
          Empty_ProtoMonoid packageBase_def transformEnums_def fragment_def modelsPkg_def
          billingPkg_def Let_def)
  moreover have "map msg_Name (Messages (transformStruct DefaultOptions userStruct (buildEnumLookup modelsPkg))) = [''User'']"
    by code_simp
  moreover have "map msg_Name (Messages (transformInterface DefaultOptions userService)) = [''GetUserRequest'']"
    by code_simp
  ultimately have m: "map msg_Name (Messages ?T) = [''User'', ''GetUserRequest'']"
    by simp
  from m eq have m': "map msg_Name (Messages r) = [''User'', ''GetUserRequest'']"
    by simp
  show ?thesis
  proof (intro conjI exI [of _ r])
    show "Transform_run DefaultOptions [modelsPkg, billingPkg] ?T" by (rule t)
    show "Transform_run DefaultOptions [modelsPkg, billingPkg] r" by (rule r)
    show "r = ?T" by (rule eq)
    show "map msg_Name (Messages r) = [''User'', ''GetUserRequest'']" by (rule m')
  qed
qed

section \<open>Further properties\<close>

lemma lists_foldl:
  "Enums (foldl (\<lambda>r x. Append ProtoMonoid r (f x)) acc xs) = Enums acc @ concat (map (\<lambda>x. Enums (f x)) xs) \<and>
   Messages (foldl (\<lambda>r x. Append ProtoMonoid r (f x)) acc xs) = Messages acc @ concat (map (\<lambda>x. Messages (f x)) xs) \<and>
   Services (foldl (\<lambda>r x. Append ProtoMonoid r (f x)) acc xs) = Services acc @ concat (map (\<lambda>x. Services (f x)) xs) \<and>
   set (Imports (foldl (\<lambda>r x. Append ProtoMonoid r (f x)) acc xs)) = set (Imports acc) \<union> (\<Union>x\<in>set xs. set (Imports (f x)))"
  by (induction xs arbitrary: acc) (auto simp: Append_ProtoMonoid set_Unique)

text \<open>
  The list fields of a fold: enums, messages and services are the concatenation of the
  fragments' lists in fold order, and the imports are the union of the fragments'
  imports, each listed once.
\<close>

theorem list_fields_concatenate:
  "Enums (Concat ProtoMonoid xs) = concat (map Enums xs) \<and>
   Messages (Concat ProtoMonoid xs) = concat (map Messages xs) \<and>
   Services (Concat ProtoMonoid xs) = concat (map Services xs) \<and>
   set (Imports (Concat ProtoMonoid xs)) = \<Union> (set (map (\<lambda>x. set (Imports x)) xs)) \<and>
   distinct (Imports (Concat ProtoMonoid xs))"
  using lists_foldl [of "\<lambda>x. x" "Empty ProtoMonoid" xs] settled_Concat [of xs]
  by (simp add: Concat_def Empty_ProtoMonoid settled_def)

text \<open>
  A map type never resolves with the repeated flag, and a map field on which no wire tag
  takes over carries the resolved key and value types and is not repeated.
\<close>

theorem map_never_repeated:
  "fst (snd (snd (transformType tm (MapType key val) el tp))) = False \<and>
   fst (snd (snd (snd (transformType tm (MapType key val) el tp)))) = True \<and>
   (parseProtobufTag (gf_Tag f) = None \<and> gf_Type f = MapType key val \<longrightarrow>
      \<not> fld_Repeated (fst (transformField opts f num el tp)) \<and>
      fld_MapKey (fst (transformField opts f num el tp)) = fst (transformType (TypeMappings opts) key el tp) \<and>
      fld_MapValue (fst (transformField opts f num el tp)) = fst (transformType (TypeMappings opts) val el tp))"
  by (simp add: transformField_untagged split: prod.splits)

text \<open>\<open>Tags map[string]string\<close> is emitted as \<open>map<string, string> tags\<close>.\<close>

theorem map_never_repeated_witness:
  "parseProtobufTag (gf_Tag tagsField) = None \<and>
   gf_Type tagsField = MapType (BasicType ''string'') (BasicType ''string'') \<and>
   \<not> fld_Repeated (fst (transformField DefaultOptions tagsField 5 {} {})) \<and>
   fld_MapKey (fst (transformField DefaultOptions tagsField 5 {} {})) = ''string'' \<and>
   fld_MapValue (fst (transformField DefaultOptions tagsField 5 {} {})) = ''string''"
proof -
  have h: "parseProtobufTag (gf_Tag tagsField) = None \<and>
           gf_Type tagsField = MapType (BasicType ''string'') (BasicType ''string'')"
    by (simp add: tagsField_def parseProtobufTag_Nil)
  have s: "fst (transformType (TypeMappings DefaultOptions) (BasicType ''string'') {} {}) = ''string''"
    by code_simp
  from map_never_repeated [where f = tagsField and opts = DefaultOptions and num = 5
      and el = "{}" and tp = "{}" and key = "BasicType ''string''" and val = "BasicType ''string''"] h
  have "\<not> fld_Repeated (fst (transformField DefaultOptions tagsField 5 {} {})) \<and>
        fld_MapKey (fst (transformField DefaultOptions tagsField 5 {} {})) =
          fst (transformType (TypeMappings DefaultOptions) (BasicType ''string'') {} {}) \<and>
        fld_MapValue (fst (transformField DefaultOptions tagsField 5 {} {})) =
          fst (transformType (TypeMappings DefaultOptions) (BasicType ''string'') {} {})"
    by blast
  with h show ?thesis by (simp only: s simp_thms)
qed

text \<open>
  A named type whose name is a type parameter in scope resolves to
  \<open>google.protobuf.Any\<close> with its import, provided the name is not also the name of an
  enum, the qualified name is not in the mapping table and the package is not \<open>time\<close>
  (those checks come first in the resolver).
\<close>

theorem type_parameter_is_any:
  "name \<in> tp \<and> name \<notin> el \<and> tm (NamedType_String pkg name) = None \<and> pkg \<noteq> ''time'' \<longrightarrow>
   transformType tm (NamedType pkg name) el tp =
     (''google.protobuf.Any'', [''google/protobuf/any.proto''], False, False, [], [])"
  by (simp add: anyType_def)

text \<open>The struct \<open>Result[T]\<close> of the repository's documentation.\<close>

theorem type_parameter_is_any_witness:
  "''T'' \<in> set (gs_TypeParams resultStruct) \<and> ''T'' \<notin> ({} :: string set) \<and>
   TypeMappings DefaultOptions (NamedType_String [] ''T'') = None \<and>
   transformType (TypeMappings DefaultOptions) (NamedType [] ''T'') {} (set (gs_TypeParams resultStruct)) =
     (''google.protobuf.Any'', [''google/protobuf/any.proto''], False, False, [], []) \<and>
   map (\<lambda>m. map (\<lambda>f. (fld_Name f, fld_Type f, fld_Number f)) (msg_Fields m))
     (Messages (transformStruct DefaultOptions resultStruct {})) =
     [[(''value'', ''google.protobuf.Any'', 1), (''error'', ''string'', 2)]] \<and>
   Imports (transformStruct DefaultOptions resultStruct {}) = [''google/protobuf/any.proto'']"
proof -
  have h: "''T'' \<in> set (gs_TypeParams resultStruct) \<and> ''T'' \<notin> ({} :: string set) \<and>
      TypeMappings DefaultOptions (NamedType_String [] ''T'') = None \<and> ([] :: string) \<noteq> ''time''"
    by (simp add: resultStruct_def DefaultOptions_def defaultTypeMappings_def NamedType_String_def)
  have a: "map (\<lambda>m. map (\<lambda>f. (fld_Name f, fld_Type f, fld_Number f)) (msg_Fields m))
     (Messages (transformStruct DefaultOptions resultStruct {})) =
     [[(''value'', ''google.protobuf.Any'', 1), (''error'', ''string'', 2)]]"
    by code_simp
  have b: "Imports (transformStruct DefaultOptions resultStruct {}) = [''google/protobuf/any.proto'']"
    by code_simp
  from type_parameter_is_any [of "''T''" "set (gs_TypeParams resultStruct)" "{}"
      "TypeMappings DefaultOptions" "[]"] h a b
  show ?thesis by blast
qed

text \<open>
  A method left with no parameter once the context parameters are dropped takes
  \<open>google.protobuf.Empty\<close> as its input, makes no request message, and reports the
  import of the empty type.
\<close>

theorem no_parameters_empty_envelope:
  "Filter (gm_Params m) (\<lambda>p. \<not> isContext p) = [] \<longrightarrow>
     rpc_InputType (fst (transformMethod opts m serviceName)) = ''google.protobuf.Empty'' \<and>
     fst (snd (transformMethod opts m serviceName)) = None \<and>
     ''google/protobuf/empty.proto'' \<in> set (snd (snd (snd (transformMethod opts m serviceName))))"
  by (simp add: transformMethod_def methodInput_def Let_def split: prod.splits)

text \<open>\<open>Ping(ctx context.Context) error\<close>: the import reaches the fragment of the
  interface.\<close>

theorem no_parameters_empty_envelope_witness:
  "Filter (gm_Params ping) (\<lambda>p. \<not> isContext p) = [] \<and>
   rpc_InputType (fst (transformMethod DefaultOptions ping ''HealthService'')) = ''google.protobuf.Empty'' \<and>
   ''google/protobuf/empty.proto'' \<in> set (snd (snd (snd (transformMethod DefaultOptions ping ''HealthService'')))) \<and>
   Imports (transformInterface DefaultOptions healthService) = [''google/protobuf/empty.proto'']"
proof -
  have h: "Filter (gm_Params ping) (\<lambda>p. \<not> isContext p) = []"
    by code_simp
  have i: "Imports (transformInterface DefaultOptions healthService) = [''google/protobuf/empty.proto'']"
    by code_simp
  from no_parameters_empty_envelope [of ping DefaultOptions "''HealthService''"] h i
  show ?thesis by blast
qed

end
